theory Spec2Isabelle
  imports Complex_Main "HOL-Library.AList" "HOL-Library.Sublist"
begin

section \<open>Conventions of the embedding\<close>

text \<open>
  The village simulation is written in Python. Its dictionaries with a fixed set of keys
  (a villager, a tile, a tree, an assignment) are records; dictionaries whose keys are data
  (the resource and building pools handed to \<open>execute_action\<close>) are maps, and the grid,
  whose iteration order is observable, is an association list in insertion order.
  Python floats (stamina, the yield variance, the tier multipliers) are read as exact reals;
  the theorem of a claim below asserts no value that depends on how a double rounds.
  Every call of the \<open>random\<close> module is an extra argument of the function that makes it.
  Indexing a dictionary at a missing key raises \<open>KeyError\<close>: functions that can raise
  return \<open>error + 'a\<close>. The f-string messages are the constructors of \<open>message\<close>,
  one constructor for each format string, carrying the values it interpolates.
\<close>

datatype error = KeyError string

definition bind_err :: "error + 'a \<Rightarrow> ('a \<Rightarrow> error + 'b) \<Rightarrow> error + 'b" where
  "bind_err r f = (case r of Inl e \<Rightarrow> Inl e | Inr x \<Rightarrow> f x)"

definition index :: "'a option \<Rightarrow> string \<Rightarrow> error + 'a" where
  \<comment> \<open>\<open>d[key]\<close> on an optional entry of a dictionary\<close>
  "index entry key = (case entry of None \<Rightarrow> Inl (KeyError key) | Some x \<Rightarrow> Inr x)"

definition dict_get :: "(string \<rightharpoonup> int) \<Rightarrow> string \<Rightarrow> int \<Rightarrow> int" where
  \<comment> \<open>\<open>d.get(key, default)\<close>\<close>
  "dict_get d key dflt = (case d key of None \<Rightarrow> dflt | Some x \<Rightarrow> x)"

definition py_int :: "real \<Rightarrow> int" where
  \<comment> \<open>\<open>int(x)\<close> on a float: truncation towards zero\<close>
  "py_int x = (if 0 \<le> x then \<lfloor>x\<rfloor> else \<lceil>x\<rceil>)"

section \<open>village_actions.py\<close>

type_synonym resources = "string \<rightharpoonup> int"
type_synonym buildings = "string \<rightharpoonup> int"

record villager =
  name :: string
  job :: string
  job_tier :: "int option"
  stamina :: real
  experience :: int
  assigned_task :: "string option"

text \<open>
  An entry of \<open>ACTIONS\<close>. The keys \<open>experience_gain\<close> and \<open>job_requirements\<close> occur in
  every entry; the others are optional.
\<close>

record action_def =
  resource :: "string option"
  base_yield :: "int option"
  stamina_cost :: "real option"
  experience_gain :: int
  job_requirements :: "string list"
  requires_resources :: "(string \<times> int) list option"
  building :: "string option"
  resource_cost :: "(string \<times> int) list option"
  duration :: "int option"
  stamina_gain :: "real option"

definition no_keys :: action_def where
  "no_keys = \<lparr>resource = None, base_yield = None, stamina_cost = None, experience_gain = 0,
     job_requirements = [], requires_resources = None, building = None,
     resource_cost = None, duration = None, stamina_gain = None\<rparr>"

definition ACTIONS :: "(string \<times> action_def) list" where
  "ACTIONS =
   [(''chop_wood'', no_keys\<lparr>resource := Some ''wood'', base_yield := Some 10,
        stamina_cost := Some 0.15, experience_gain := 5,
        job_requirements := [''woodcutter'', ''lumberjack'', ''builder'']\<rparr>),
    (''gather_food'', no_keys\<lparr>resource := Some ''food'', base_yield := Some 8,
        stamina_cost := Some 0.12, experience_gain := 5,
        job_requirements := [''forager'', ''farmer'', ''chef'']\<rparr>),
    (''farm_crops'', no_keys\<lparr>resource := Some ''food'', base_yield := Some 15,
        stamina_cost := Some 0.18, experience_gain := 8,
        job_requirements := [''farmer'', ''chef'']\<rparr>),
    (''cook_food'', no_keys\<lparr>resource := Some ''food'', base_yield := Some 20,
        stamina_cost := Some 0.10, experience_gain := 10,
        job_requirements := [''chef''],
        requires_resources := Some [(''food'', 10)]\<rparr>),
    (''mine_stone'', no_keys\<lparr>resource := Some ''stone'', base_yield := Some 12,
        stamina_cost := Some 0.20, experience_gain := 6,
        job_requirements := [''miner'', ''excavator'', ''engineer'']\<rparr>),
    (''build_house'', no_keys\<lparr>building := Some ''houses'',
        resource_cost := Some [(''wood'', 50), (''stone'', 30)],
        stamina_cost := Some 0.25, experience_gain := 15,
        job_requirements := [''builder'', ''engineer''], duration := Some 1\<rparr>),
    (''build_workshop'', no_keys\<lparr>building := Some ''workshops'',
        resource_cost := Some [(''wood'', 80), (''stone'', 60)],
        stamina_cost := Some 0.30, experience_gain := 20,
        job_requirements := [''builder'', ''engineer''], duration := Some 2\<rparr>),
    (''build_farm'', no_keys\<lparr>building := Some ''farms'',
        resource_cost := Some [(''wood'', 40), (''food'', 20)],
        stamina_cost := Some 0.20, experience_gain := 15,
        job_requirements := [''farmer'', ''chef'', ''builder''], duration := Some 1\<rparr>),
    (''rest'', no_keys\<lparr>stamina_gain := Some 0.40, experience_gain := 0,
        job_requirements := []\<rparr>)]"

definition TIER_MULTIPLIERS :: "int \<rightharpoonup> real" where
  "TIER_MULTIPLIERS = [1 \<mapsto> 1.0, 2 \<mapsto> 1.5, 3 \<mapsto> 2.0]"

definition tier_multiplier :: "int option \<Rightarrow> real" where
  \<comment> \<open>\<open>TIER_MULTIPLIERS.get(villager['job_tier'], 1.0)\<close>\<close>
  "tier_multiplier t =
     (case t of None \<Rightarrow> 1.0
      | Some k \<Rightarrow> (case TIER_MULTIPLIERS k of None \<Rightarrow> 1.0 | Some m \<Rightarrow> m))"

datatype message =
    UnknownAction string
  | WrongJob string string
  | TooTired string string
  | NotImplemented string
  | Rested string real
  | NotEnoughFor string string
  | Gathered string int string real int
  | NotEnoughTo string string
  | Built string string real int
  | VillagerNotFound "string option"
  | JobChanged "string option" string "int option" string "int option"
  | BuildAssigned "string option" "string option"
  | Rule
  | DayHeader int
  | Idle string
  | ResourceSummary int int int
  | BuildingSummary int int int

type_synonym outcome = "villager \<times> resources \<times> buildings \<times> message"

definition first_short :: "resources \<Rightarrow> (string \<times> int) list \<Rightarrow> (string \<times> int) option" where
  \<comment> \<open>the checking loop: the first item whose amount the pool does not hold\<close>
  "first_short r items = find (\<lambda>(res, amount). dict_get r res 0 < amount) items"

fun deduct :: "(string \<times> int) list \<Rightarrow> resources \<Rightarrow> error + resources" where
  \<comment> \<open>the loop \<open>resources[res] -= amount\<close>\<close>
  "deduct [] r = Inr r"
| "deduct ((res, amount) # items) r =
     (case r res of None \<Rightarrow> Inl (KeyError res)
      | Some q \<Rightarrow> deduct items (r(res \<mapsto> q - amount)))"

definition execute_rest :: "villager \<Rightarrow> resources \<Rightarrow> buildings \<Rightarrow> action_def \<Rightarrow> error + outcome" where
  "execute_rest v r b d =
     bind_err (index (stamina_gain d) ''stamina_gain'') (\<lambda>gain.
       let v' = v\<lparr>stamina := min 1.0 (stamina v + gain)\<rparr>
       in Inr (v', r, b, Rested (name v') (stamina v')))"

definition execute_resource_gathering ::
  "real \<Rightarrow> string \<Rightarrow> villager \<Rightarrow> resources \<Rightarrow> buildings \<Rightarrow> action_def \<Rightarrow> error + outcome" where
  "execute_resource_gathering variance action v r b d =
     (case (case requires_resources d of None \<Rightarrow> None | Some reqs \<Rightarrow> first_short r reqs) of
        Some (res, amount) \<Rightarrow> Inr (v, r, b, NotEnoughFor res action)
      | None \<Rightarrow>
          bind_err (case requires_resources d of None \<Rightarrow> Inr r | Some reqs \<Rightarrow> deduct reqs r) (\<lambda>r1.
          bind_err (index (base_yield d) ''base_yield'') (\<lambda>base.
          let actual_yield = py_int (real_of_int base * tier_multiplier (job_tier v) * variance) in
          bind_err (index (resource d) ''resource'') (\<lambda>resource_type.
          let r2 = r1(resource_type \<mapsto> dict_get r1 resource_type 0 + actual_yield) in
          bind_err (index (stamina_cost d) ''stamina_cost'') (\<lambda>cost.
          let v' = v\<lparr>stamina := max 0 (stamina v - cost),
                      experience := min 100 (experience v + experience_gain d)\<rparr>
          in Inr (v', r2, b,
                  Gathered (name v') actual_yield resource_type (stamina v') (experience v')))))))"

definition execute_building ::
  "string \<Rightarrow> villager \<Rightarrow> resources \<Rightarrow> buildings \<Rightarrow> action_def \<Rightarrow> error + outcome" where
  "execute_building action v r b d =
     bind_err (index (resource_cost d) ''resource_cost'') (\<lambda>cost.
       case first_short r cost of
         Some (res, amount) \<Rightarrow> Inr (v, r, b, NotEnoughTo res action)
       | None \<Rightarrow>
           bind_err (deduct cost r) (\<lambda>r1.
           bind_err (index (building d) ''building'') (\<lambda>building_type.
           let b1 = b(building_type \<mapsto> dict_get b building_type 0 + 1) in
           bind_err (index (stamina_cost d) ''stamina_cost'') (\<lambda>sc.
           let v' = v\<lparr>stamina := max 0 (stamina v - sc),
                       experience := min 100 (experience v + experience_gain d)\<rparr>
           in Inr (v', r1, b1,
                   Built (name v') building_type (stamina v') (experience v'))))))"

definition execute_action ::
  "real \<Rightarrow> string \<Rightarrow> villager \<Rightarrow> resources \<Rightarrow> buildings \<Rightarrow> error + outcome" where
  \<comment> \<open>\<open>variance\<close> is the value \<open>random.uniform(0.8, 1.2)\<close> returns if it is called\<close>
  "execute_action variance action v r b =
     (case map_of ACTIONS action of
        None \<Rightarrow> Inr (v, r, b, UnknownAction action)
      | Some d \<Rightarrow>
          if job_requirements d \<noteq> [] \<and> job v \<notin> set (job_requirements d)
          then Inr (v, r, b, WrongJob (name v) action)
          else if stamina v < (case stamina_cost d of None \<Rightarrow> 0 | Some c \<Rightarrow> c)
          then Inr (v, r, b, TooTired (name v) action)
          else if action = ''rest'' then execute_rest v r b d
          else if resource d \<noteq> None then execute_resource_gathering variance action v r b d
          else if building d \<noteq> None then execute_building action v r b d
          else Inr (v, r, b, NotImplemented action))"

section \<open>village_state.py\<close>

record village_state =
  resources :: resources
  villagers :: "villager list"
  buildings :: buildings
  day :: int

text \<open>
  An entry of \<open>decisions['assignments']\<close> and one of \<open>decisions['build_actions']\<close>.
  Every key is read with \<open>.get\<close>, so each may be missing (\<open>None\<close>).
\<close>

record assignment =
  a_name :: "string option"
  new_job :: "string option"
  a_job_tier :: "int option"
  task :: "string option"

record build_action =
  ba_building :: "string option"
  assigned_to :: "string option"

record decisions =
  assignments :: "assignment list option"
  build_actions :: "build_action list option"

definition truthy :: "string option \<Rightarrow> bool" where
  \<comment> \<open>the truth value of a string or \<open>None\<close>\<close>
  "truthy s = (case s of None \<Rightarrow> False | Some t \<Rightarrow> t \<noteq> [])"

definition find_villager :: "string option \<Rightarrow> villager list \<Rightarrow> villager option" where
  "find_villager n vs = find (\<lambda>v. Some (name v) = n) vs"

fun modify_villager :: "string option \<Rightarrow> (villager \<Rightarrow> villager) \<Rightarrow> villager list \<Rightarrow> villager list" where
  \<comment> \<open>the in-place mutation of the dictionary \<open>_find_villager\<close> returned\<close>
  "modify_villager n f [] = []"
| "modify_villager n f (v # vs) =
     (if Some (name v) = n then f v # vs else v # modify_villager n f vs)"

definition change_job :: "assignment \<Rightarrow> villager \<Rightarrow> villager" where
  "change_job a v =
     (case new_job a of
        None \<Rightarrow> v
      | Some nj \<Rightarrow> if nj \<noteq> [] \<and> nj \<noteq> job v
                   then v\<lparr>job := nj, job_tier := a_job_tier a\<rparr> else v)"

definition assign_given_task :: "assignment \<Rightarrow> villager \<Rightarrow> villager" where
  "assign_given_task a v = (if truthy (task a) then v\<lparr>assigned_task := task a\<rparr> else v)"

definition apply_assignment ::
  "assignment \<Rightarrow> villager list \<times> message list \<Rightarrow> villager list \<times> message list" where
  "apply_assignment a st =
     (case st of (vs, msgs) \<Rightarrow>
        (case find_villager (a_name a) vs of
           None \<Rightarrow> (vs, msgs @ [VillagerNotFound (a_name a)])
         | Some v \<Rightarrow>
             (modify_villager (a_name a) (\<lambda>u. assign_given_task a (change_job a u)) vs,
              (case new_job a of
                 None \<Rightarrow> msgs
               | Some nj \<Rightarrow>
                   if nj \<noteq> [] \<and> nj \<noteq> job v
                   then msgs @ [JobChanged (a_name a) (job v) (a_job_tier a) nj (a_job_tier a)]
                   else msgs))))"

definition format_opt :: "string option \<Rightarrow> string" where
  \<comment> \<open>a string or \<open>None\<close> interpolated into an f-string\<close>
  "format_opt s = (case s of None \<Rightarrow> ''None'' | Some t \<Rightarrow> t)"

definition apply_build_action ::
  "build_action \<Rightarrow> villager list \<times> message list \<Rightarrow> villager list \<times> message list" where
  "apply_build_action ba st =
     (case st of (vs, msgs) \<Rightarrow>
        (case find_villager (assigned_to ba) vs of
           None \<Rightarrow> (vs, msgs)
         | Some v \<Rightarrow>
             (modify_villager (assigned_to ba)
                (\<lambda>u. u\<lparr>assigned_task := Some (''build_'' @ format_opt (ba_building ba))\<rparr>) vs,
              msgs @ [BuildAssigned (assigned_to ba) (ba_building ba)])))"

definition apply_oracle_decisions ::
  "decisions \<Rightarrow> village_state \<Rightarrow> village_state \<times> message list" where
  "apply_oracle_decisions d s =
     (let st1 = (case assignments d of None \<Rightarrow> (villagers s, [])
                 | Some as \<Rightarrow> fold apply_assignment as (villagers s, []));
          st2 = (case build_actions d of None \<Rightarrow> st1
                 | Some bas \<Rightarrow> fold apply_build_action bas st1)
      in (s\<lparr>villagers := fst st2\<rparr>, snd st2))"

text \<open>
  The loop of \<open>execute_day\<close>. \<open>variance i\<close> is the draw the villager at roster position
  \<open>i\<close> gets if its action gathers. The accumulator holds the villagers already processed,
  the live pools and the messages; an exception leaves the loop with the state as mutated so far.
\<close>

fun run_tasks ::
  "(nat \<Rightarrow> real) \<Rightarrow> nat \<Rightarrow> villager list \<Rightarrow>
   villager list \<times> resources \<times> buildings \<times> message list \<Rightarrow>
   (villager list \<times> resources \<times> buildings \<times> message list) \<times> error option" where
  "run_tasks variance i [] acc = (acc, None)"
| "run_tasks variance i (v # todo) (done, r, b, msgs) =
     (case assigned_task v of
        None \<Rightarrow> run_tasks variance (Suc i) todo (done @ [v], r, b, msgs @ [Idle (name v)])
      | Some t \<Rightarrow>
          if t = [] then run_tasks variance (Suc i) todo (done @ [v], r, b, msgs @ [Idle (name v)])
          else (case execute_action (variance i) t v r b of
                  Inl e \<Rightarrow> ((done @ v # todo, r, b, msgs), Some e)
                | Inr (v', r', b', m) \<Rightarrow>
                    run_tasks variance (Suc i) todo (done @ [v'], r ++ r', b ++ b', msgs @ [m])))"

definition execute_day ::
  "(nat \<Rightarrow> real) \<Rightarrow> village_state \<Rightarrow> village_state \<times> (error + message list)" where
  "execute_day variance s =
     (case run_tasks variance 0 (villagers s)
             ([], resources s, buildings s, [Rule, DayHeader (day s), Rule]) of
        ((vs, r, b, msgs), Some e) \<Rightarrow>
          (s\<lparr>villagers := vs, resources := r, buildings := b\<rparr>, Inl e)
      | ((vs, r, b, msgs), None) \<Rightarrow>
          (s\<lparr>villagers := vs, resources := r, buildings := b, day := day s + 1\<rparr>,
           bind_err (index (r ''wood'') ''wood'') (\<lambda>w.
           bind_err (index (r ''food'') ''food'') (\<lambda>f.
           bind_err (index (r ''stone'') ''stone'') (\<lambda>st.
           bind_err (index (b ''houses'') ''houses'') (\<lambda>h.
           bind_err (index (b ''workshops'') ''workshops'') (\<lambda>ws.
           bind_err (index (b ''farms'') ''farms'') (\<lambda>fm.
             Inr (msgs @ [ResourceSummary w f st, BuildingSummary h ws fm])))))))))"

definition add_villager :: "string \<Rightarrow> string \<Rightarrow> int \<Rightarrow> village_state \<Rightarrow> village_state" where
  "add_villager n j t s =
     s\<lparr>villagers := villagers s @
         [\<lparr>name = n, job = j, job_tier = Some t, stamina = 1.0, experience = 0,
           assigned_task = None\<rparr>]\<rparr>"

section \<open>oracle_agent.py: the rule-based fallback\<close>

definition check_promotion ::
  "string \<Rightarrow> int option \<Rightarrow> int \<Rightarrow> resources \<Rightarrow> error + (string \<times> int option)" where
  "check_promotion j tier xp r =
     (if j = ''woodcutter'' \<and> tier = Some 1 \<and> xp > 70 then Inr (''lumberjack'', Some 2)
      else bind_err (if j = ''lumberjack'' \<and> tier = Some 2 \<and> xp > 85
                     then bind_err (index (r ''wood'') ''wood'') (\<lambda>w. Inr (w > 200))
                     else Inr False) (\<lambda>to_builder.
      if to_builder then Inr (''builder'', Some 3)
      else if j = ''forager'' \<and> tier = Some 1 \<and> xp > 70 then Inr (''farmer'', Some 2)
      else bind_err (if j = ''farmer'' \<and> tier = Some 2 \<and> xp > 90
                     then bind_err (index (r ''food'') ''food'') (\<lambda>f. Inr (f > 200))
                     else Inr False) (\<lambda>to_chef.
      if to_chef then Inr (''chef'', Some 3)
      else if j = ''miner'' \<and> tier = Some 1 \<and> xp > 70 then Inr (''excavator'', Some 2)
      else bind_err (if j = ''excavator'' \<and> tier = Some 2 \<and> xp > 90
                     then bind_err (index (r ''stone'') ''stone'') (\<lambda>st. Inr (st > 150))
                     else Inr False) (\<lambda>to_engineer.
      if to_engineer then Inr (''engineer'', Some 3)
      else Inr (j, tier)))))"

definition task_map :: "(string \<times> string) list" where
  "task_map =
     [(''woodcutter'', ''chop_wood''), (''lumberjack'', ''chop_wood''),
      (''builder'', ''chop_wood''), (''forager'', ''gather_food''),
      (''farmer'', ''farm_crops''), (''chef'', ''cook_food''),
      (''miner'', ''mine_stone''), (''excavator'', ''mine_stone''),
      (''engineer'', ''mine_stone'')]"

definition assign_task :: "string \<Rightarrow> int option \<Rightarrow> resources \<Rightarrow> error + string" where
  "assign_task j tier r =
     bind_err (index (r ''wood'') ''wood'') (\<lambda>wd.
     bind_err (index (r ''food'') ''food'') (\<lambda>fd.
     bind_err (index (r ''stone'') ''stone'') (\<lambda>sn.
     Inr (if tier = Some 3 \<and> j = ''builder'' \<and> wd \<ge> 200 then ''build_house''
          else if tier = Some 3 \<and> j = ''engineer'' \<and> sn \<ge> 150 \<and> wd \<ge> 100
          then ''build_workshop''
          else if tier = Some 3 \<and> j = ''chef'' \<and> fd \<ge> 180
          then (if fd > 50 then ''cook_food'' else ''gather_food'')
          else if wd < 100 \<and> j \<in> set [''woodcutter'', ''lumberjack'', ''builder'']
          then ''chop_wood''
          else if fd < 100 \<and> j = ''forager'' then ''gather_food''
          else if fd < 100 \<and> j \<in> set [''farmer'', ''chef''] then ''farm_crops''
          else if sn < 80 \<and> j \<in> set [''miner'', ''excavator'', ''engineer'']
          then ''mine_stone''
          else (case map_of task_map j of None \<Rightarrow> ''rest'' | Some t \<Rightarrow> t)))))"

fun str_replace :: "string \<Rightarrow> string \<Rightarrow> string \<Rightarrow> string" where
  \<comment> \<open>\<open>s.replace(old, new)\<close> for a non-empty \<open>old\<close>: every occurrence, left to right\<close>
  "str_replace old new [] = []"
| "str_replace old new (c # s) =
     (if old \<noteq> [] \<and> prefix old (c # s)
      then new @ str_replace old new (drop (length old) (c # s))
      else c # str_replace old new s)"

fun fallback_loop ::
  "resources \<Rightarrow> villager list \<Rightarrow> assignment list \<times> build_action list \<Rightarrow>
   error + (assignment list \<times> build_action list)" where
  "fallback_loop r [] acc = Inr acc"
| "fallback_loop r (v # vs) (as, bas) =
     (if stamina v < 0.2
      then fallback_loop r vs
             (as @ [\<lparr>a_name = Some (name v), new_job = Some (job v),
                      a_job_tier = job_tier v, task = Some ''rest''\<rparr>], bas)
      else
        bind_err (check_promotion (job v) (job_tier v) (experience v) r) (\<lambda>(nj, nt).
        bind_err (assign_task nj nt r) (\<lambda>t.
        fallback_loop r vs
          (as @ [\<lparr>a_name = Some (name v), new_job = Some nj, a_job_tier = nt, task = Some t\<rparr>],
           if nt = Some 3 \<and> prefix ''build_'' t
           then bas @ [\<lparr>ba_building = Some (str_replace ''build_'' [] t),
                        assigned_to = Some (name v)\<rparr>]
           else bas))))"

definition fallback_logic :: "village_state \<Rightarrow> error + decisions" where
  "fallback_logic s =
     bind_err (fallback_loop (resources s) (villagers s) ([], [])) (\<lambda>(as, bas).
       Inr \<lparr>assignments = Some as, build_actions = Some bas\<rparr>)"

section \<open>grid_manager.py\<close>

record tree_position =
  offset_x :: real
  offset_y :: real

record tree =
  tree_id :: int
  tree_pos :: tree_position
  cut :: bool
  tree_type :: string

record tile =
  tile_x :: int
  tile_y :: int
  tile_type :: string
  tile_image_url :: "string option"
  trees :: "tree list"

text \<open>The dictionary \<open>{'wood': _, 'stone': _, 'food': _}\<close> of the grid and of a builder.\<close>

record stock =
  wood :: int
  stone :: int
  food :: int

typedecl analysis

text \<open>
  The key \<open>f"{x},{y}"\<close> of a tile is the pair \<open>(x, y)\<close>; the grid keeps Python's insertion
  order.
\<close>

record grid_manager =
  grid_size :: int
  grid :: "((int \<times> int) \<times> tile) list"
  grid_resources :: stock
  tree_id_counter :: int
  oracle_position :: "(int \<times> int) option"
  environment_analysis :: "analysis option"

definition new_grid_manager :: "int \<Rightarrow> grid_manager" where
  \<comment> \<open>\<open>GridManager(grid_size)\<close>\<close>
  "new_grid_manager n =
     \<lparr>grid_size = n, grid = [], grid_resources = \<lparr>wood = 0, stone = 0, food = 0\<rparr>,
      tree_id_counter = 0, oracle_position = None, environment_analysis = None\<rparr>"

text \<open>
  The draws of one cell of \<open>initialize_grid\<close>: \<open>random.random()\<close> for the tile type and for
  the presence of trees, \<open>random.randint(1, 2)\<close>, and for the \<open>j\<close>-th tree its two offsets
  and its species.
\<close>

record cell_draws =
  rand_type :: real
  rand_trees :: real
  num_trees :: int
  tree_draws :: "nat \<Rightarrow> real \<times> real \<times> string"

definition random_tile_type :: "real \<Rightarrow> string" where
  "random_tile_type rand =
     (if rand < 0.75 then ''grass'' else if rand < 0.90 then ''dirt'' else ''water'')"

definition get_next_tree_id :: "int \<Rightarrow> int \<times> int" where
  \<comment> \<open>the id handed out and the counter after it\<close>
  "get_next_tree_id counter = (counter, counter + 1)"

fun grow_trees ::
  "nat \<Rightarrow> nat \<Rightarrow> (nat \<Rightarrow> real \<times> real \<times> string) \<Rightarrow> int \<Rightarrow> tree list \<Rightarrow> tree list \<times> int" where
  \<comment> \<open>the loop \<open>for _ in range(num_trees)\<close>: iterations left, iterations done\<close>
  "grow_trees 0 j dr counter ts = (ts, counter)"
| "grow_trees (Suc k) j dr counter ts =
     (case get_next_tree_id counter of (tid, counter') \<Rightarrow>
      (case dr j of (ox, oy, species) \<Rightarrow>
        grow_trees k (Suc j) dr counter'
          (ts @ [\<lparr>tree_id = tid, tree_pos = \<lparr>offset_x = ox, offset_y = oy\<rparr>,
                   cut = False, tree_type = species\<rparr>])))"

definition generate_trees_for_tile :: "cell_draws \<Rightarrow> string \<Rightarrow> int \<Rightarrow> tree list \<times> int" where
  "generate_trees_for_tile dr ty counter =
     (if ty = ''water'' then ([], counter)
      else grow_trees (nat (if rand_trees dr < 0.7 then num_trees dr else 0)) 0
             (tree_draws dr) counter [])"

definition init_cell :: "(int \<Rightarrow> int \<Rightarrow> cell_draws) \<Rightarrow> int \<times> int \<Rightarrow> grid_manager \<Rightarrow> grid_manager" where
  \<comment> \<open>the body of the two nested loops of \<open>initialize_grid\<close>\<close>
  "init_cell draws cell g =
     (case cell of (cx, cy) \<Rightarrow>
        let ty = random_tile_type (rand_type (draws cx cy)) in
        (case generate_trees_for_tile (draws cx cy) ty (tree_id_counter g) of
           (ts, counter') \<Rightarrow>
             g\<lparr>grid := AList.update (cx, cy)
                         \<lparr>tile_x = cx, tile_y = cy, tile_type = ty, tile_image_url = None,
                           trees = ts\<rparr> (grid g),
               tree_id_counter := counter'\<rparr>))"

definition analyze_environment ::
  "(int \<times> int) option \<times> analysis option \<Rightarrow> grid_manager \<Rightarrow> grid_manager" where
  \<comment> \<open>the analysis hook: it stores the spawn point and the analysis the collaborator chose\<close>
  "analyze_environment hook g =
     g\<lparr>oracle_position := fst hook, environment_analysis := snd hook\<rparr>"

definition initialize_grid ::
  "(int \<Rightarrow> int \<Rightarrow> cell_draws) \<Rightarrow> (int \<times> int) option \<times> analysis option \<Rightarrow>
   grid_manager \<Rightarrow> grid_manager" where
  "initialize_grid draws hook g =
     analyze_environment hook
       (fold (init_cell draws)
          (List.product [0..grid_size g - 1] [0..grid_size g - 1]) g)"

definition count_total_trees :: "grid_manager \<Rightarrow> int" where
  "count_total_trees g =
     fold (\<lambda>ti count. count + int (length (filter (\<lambda>t. \<not> cut t) (trees ti))))
       (map snd (grid g)) 0"

record grid_stats =
  total_trees :: int
  trees_cut :: int

record grid_state =
  gs_grid_size :: int
  gs_tiles :: "tile list"
  gs_resources :: stock
  gs_oracle_position :: "(int \<times> int) option"
  gs_environment_analysis :: "analysis option"
  gs_stats :: grid_stats

definition get_grid_state :: "grid_manager \<Rightarrow> grid_state" where
  "get_grid_state g =
     \<lparr>gs_grid_size = grid_size g, gs_tiles = map snd (grid g),
      gs_resources = grid_resources g, gs_oracle_position = oracle_position g,
      gs_environment_analysis = environment_analysis g,
      gs_stats = \<lparr>total_trees = count_total_trees g,
                   trees_cut = tree_id_counter g - count_total_trees g\<rparr>\<rparr>"

fun cut_first :: "int \<Rightarrow> tree list \<Rightarrow> tree list option" where
  \<comment> \<open>the search loop of \<open>cut_tree\<close>: the first standing tree with the id is flagged\<close>
  "cut_first tid [] = None"
| "cut_first tid (t # ts) =
     (if tree_id t = tid \<and> \<not> cut t then Some (t\<lparr>cut := True\<rparr> # ts)
      else map_option ((#) t) (cut_first tid ts))"

definition cut_tree ::
  "int \<Rightarrow> (int \<times> int) option \<times> analysis option \<Rightarrow> int \<Rightarrow> int \<Rightarrow> int \<Rightarrow>
   grid_manager \<Rightarrow> grid_manager \<times> (bool \<times> int)" where
  \<comment> \<open>\<open>wood_gained\<close> is the value \<open>random.randint(5, 15)\<close> returns if it is called\<close>
  "cut_tree wood_gained hook px py tid g =
     (case map_of (grid g) (px, py) of
        None \<Rightarrow> (g, (False, 0))
      | Some ti \<Rightarrow>
          (case cut_first tid (trees ti) of
             None \<Rightarrow> (g, (False, 0))
           | Some ts \<Rightarrow>
               (analyze_environment hook
                  (g\<lparr>grid := AList.update (px, py) (ti\<lparr>trees := ts\<rparr>) (grid g),
                     grid_resources :=
                       (grid_resources g)\<lparr>wood := wood (grid_resources g) + wood_gained\<rparr>\<rparr>),
                (True, wood_gained))))"

definition reset_grid ::
  "(int \<Rightarrow> int \<Rightarrow> cell_draws) \<Rightarrow> (int \<times> int) option \<times> analysis option \<Rightarrow>
   grid_manager \<Rightarrow> grid_manager" where
  "reset_grid draws hook g =
     initialize_grid draws hook
       (g\<lparr>grid := [], grid_resources := \<lparr>wood = 0, stone = 0, food = 0\<rparr>,
          tree_id_counter := 0\<rparr>)"

text \<open>
  The states of a grid manager: a new manager initialised once, then reset or cut any
  number of times.
\<close>

inductive reachable :: "grid_manager \<Rightarrow> bool" where
  init: "reachable (initialize_grid draws hook (new_grid_manager n))"
| reset: "reachable g \<Longrightarrow> reachable (reset_grid draws hook g)"
| cut: "reachable g \<Longrightarrow> reachable (fst (cut_tree w hook px py tid g))"

section \<open>builder_agent.py\<close>

datatype history_entry = BuildEntry string "int \<times> int" "int \<times> int"

record builder_agent =
  agent_id :: string
  position :: "int \<times> int"
  inventory :: stock
  current_task :: "string option"
  action_history :: "history_entry list"
  grid_manager :: grid_manager

datatype build_error =
    OutOfBounds int int
  | TooFarAway int int
  | UnknownBuildingType string
  | InsufficientResources "int \<times> int" stock

datatype build_result =
    BuildFailure build_error
  | BuildSuccess string "int \<times> int" "int \<times> int" stock

definition requirements :: "(string \<times> (int \<times> int)) list" where
  \<comment> \<open>building type to \<open>(wood, stone)\<close>\<close>
  "requirements = [(''house'', (50, 20)), (''workshop'', (100, 50)), (''farm'', (30, 10))]"

definition action_build ::
  "string \<Rightarrow> int \<Rightarrow> int \<Rightarrow> builder_agent \<Rightarrow> builder_agent \<times> build_result" where
  "action_build building_type bx by a =
     (if \<not> (0 \<le> bx \<and> bx < grid_size (grid_manager a) \<and>
             0 \<le> by \<and> by < grid_size (grid_manager a))
      then (a, BuildFailure (OutOfBounds bx by))
      else if \<bar>bx - fst (position a)\<bar> + \<bar>by - snd (position a)\<bar> > 2
      then (a, BuildFailure (TooFarAway bx by))
      else (case map_of requirements building_type of
              None \<Rightarrow> (a, BuildFailure (UnknownBuildingType building_type))
            | Some required \<Rightarrow>
                if wood (inventory a) < fst required \<or> stone (inventory a) < snd required
                then (a, BuildFailure (InsufficientResources required (inventory a)))
                else
                  let inv = (inventory a)\<lparr>wood := wood (inventory a) - fst required,
                                           stone := stone (inventory a) - snd required\<rparr>
                  in (a\<lparr>inventory := inv,
                        action_history := action_history a @
                          [BuildEntry building_type (bx, by) required]\<rparr>,
                      BuildSuccess building_type (bx, by) required inv)))"

section \<open>Vocabulary of the properties\<close>

text \<open>
  The messages of \<open>execute_action\<close> that report a rejection: the ones the source marks
  with a cross or a warning sign.
\<close>

fun is_failure :: "message \<Rightarrow> bool" where
  "is_failure (UnknownAction a) = True"
| "is_failure (WrongJob n a) = True"
| "is_failure (TooTired n a) = True"
| "is_failure (NotImplemented a) = True"
| "is_failure (NotEnoughFor res a) = True"
| "is_failure (NotEnoughTo res a) = True"
| "is_failure m = False"

text \<open>
  The three pools hold no negative amount; a pool that is missing counts as 0, as
  \<open>resources.get(res, 0)\<close> reads it.
\<close>

definition pools_nonneg :: "resources \<Rightarrow> bool" where
  "pools_nonneg r =
     (0 \<le> dict_get r ''wood'' 0 \<and> 0 \<le> dict_get r ''food'' 0 \<and> 0 \<le> dict_get r ''stone'' 0)"

text \<open>
  A sequence of calls of \<open>execute_action\<close> on one resource dictionary: each call has its own
  draw, action, villager and buildings, and works on the resources the call before it
  returned. The result lists the resources after every call.
\<close>

fun execute_actions ::
  "(real \<times> string \<times> villager \<times> buildings) list \<Rightarrow> resources \<Rightarrow> error + resources list" where
  "execute_actions [] r = Inr []"
| "execute_actions ((vr, action, v, b) # calls) r =
     bind_err (execute_action vr action v r b) (\<lambda>(v', r', b', m).
     bind_err (execute_actions calls r') (\<lambda>rs. Inr (r' # rs)))"


text \<open>What identifies a villager's post: its name, job and tier.\<close>

definition core :: "villager \<Rightarrow> string \<times> string \<times> int option" where
  "core v = (name v, job v, job_tier v)"

text \<open>The assignment the fallback gives a tired villager, and the one it gives any villager.\<close>

definition rest_assignment :: "villager \<Rightarrow> assignment" where
  "rest_assignment v =
     \<lparr>a_name = Some (name v), new_job = Some (job v), a_job_tier = job_tier v,
      task = Some ''rest''\<rparr>"



text \<open>The trees of the grid, tile after tile in the order the tiles were created.\<close>

definition all_trees :: "grid_manager \<Rightarrow> tree list" where
  "all_trees g = concat (map (\<lambda>kt. trees (snd kt)) (grid g))"

text \<open>
  The invariant of the grid: the ids handed out so far are \<open>0\<close>, ..., \<open>tree_id_counter - 1\<close>,
  in the order of creation, and a water tile holds no tree.
\<close>

definition grid_inv :: "grid_manager \<Rightarrow> bool" where
  "grid_inv g =
     (0 \<le> tree_id_counter g \<and>
      map tree_id (all_trees g) = [0..tree_id_counter g - 1] \<and>
      (\<forall>kt\<in>set (grid g). tile_type (snd kt) = ''water'' \<longrightarrow> trees (snd kt) = []))"

section \<open>Basic facts\<close>

lemma bind_err_simps:
  "bind_err (Inl e) f = Inl e"
  "bind_err (Inr x) f = f x"
  by (simp_all add: bind_err_def)

lemma index_simps:
  "index None k = Inl (KeyError k)"
  "index (Some x) k = Inr x"
  by (simp_all add: index_def)

lemma first_short_Some:
  "(res, amount) \<in> set items \<Longrightarrow> dict_get r res 0 < amount \<Longrightarrow>
   \<exists>res' amount'. first_short r items = Some (res', amount')"
  unfolding first_short_def
  by (induction items) auto

lemma gathering_short:
  assumes "requires_resources d = Some reqs" "(res, amount) \<in> set reqs"
    "dict_get r res 0 < amount"
  shows "\<exists>res'. execute_resource_gathering vr action v r b d = Inr (v, r, b, NotEnoughFor res' action)"
proof -
  from first_short_Some[OF assms(2,3)] obtain res' amount'
    where "first_short r reqs = Some (res', amount')" by blast
  then show ?thesis
    by (auto simp: execute_resource_gathering_def assms(1))
qed

lemma building_short:
  assumes "resource_cost d = Some cost" "(res, amount) \<in> set cost"
    "dict_get r res 0 < amount"
  shows "\<exists>res'. execute_building action v r b d = Inr (v, r, b, NotEnoughTo res' action)"
proof -
  from first_short_Some[OF assms(2,3)] obtain res' amount'
    where "first_short r cost = Some (res', amount')" by blast
  then show ?thesis
    by (auto simp: execute_building_def assms(1) bind_err_simps index_simps)
qed

text \<open>The three shapes of an entry of \<open>ACTIONS\<close>, as the dispatch of \<open>execute_action\<close> sees them.\<close>

lemma ACTIONS_shape:
  assumes "map_of ACTIONS action = Some d"
  shows "(action = ''rest'' \<and> requires_resources d = None \<and> resource_cost d = None) \<or>
         (action \<noteq> ''rest'' \<and> resource d \<noteq> None \<and> resource_cost d = None) \<or>
         (action \<noteq> ''rest'' \<and> resource d = None \<and> building d \<noteq> None \<and> requires_resources d = None)"
  using assms unfolding ACTIONS_def no_keys_def
  by (auto split: if_splits)

section \<open>Rejections of \<open>execute_action\<close>\<close>

text \<open>Every check that fails hands back the arguments, with a failure message.\<close>

lemma rejected_returns_inputs:
  "(map_of ACTIONS action = None \<or>
     (\<exists>d. map_of ACTIONS action = Some d \<and>
        ((job_requirements d \<noteq> [] \<and> job v \<notin> set (job_requirements d)) \<or>
         stamina v < (case stamina_cost d of None \<Rightarrow> 0 | Some c \<Rightarrow> c) \<or>
         (\<exists>reqs res amount. requires_resources d = Some reqs \<and> (res, amount) \<in> set reqs \<and>
              dict_get r res 0 < amount) \<or>
         (\<exists>cost res amount. resource_cost d = Some cost \<and> (res, amount) \<in> set cost \<and>
              dict_get r res 0 < amount))))
    \<longrightarrow> (\<exists>m. is_failure m \<and> execute_action vr action v r b = Inr (v, r, b, m))"
proof (cases "map_of ACTIONS action")
  case None
  then show ?thesis by (auto simp: execute_action_def intro: exI[of _ "UnknownAction action"])
next
  case (Some d)
  show ?thesis
  proof
    assume "map_of ACTIONS action = None \<or>
   (\<exists>d. map_of ACTIONS action = Some d \<and>
      ((job_requirements d \<noteq> [] \<and> job v \<notin> set (job_requirements d)) \<or>
       stamina v < (case stamina_cost d of None \<Rightarrow> 0 | Some c \<Rightarrow> c) \<or>
       (\<exists>reqs res amount. requires_resources d = Some reqs \<and> (res, amount) \<in> set reqs \<and>
            dict_get r res 0 < amount) \<or>
       (\<exists>cost res amount. resource_cost d = Some cost \<and> (res, amount) \<in> set cost \<and>
            dict_get r res 0 < amount)))"
    with Some have cond:
      "(job_requirements d \<noteq> [] \<and> job v \<notin> set (job_requirements d)) \<or>
       stamina v < (case stamina_cost d of None \<Rightarrow> 0 | Some c \<Rightarrow> c) \<or>
       (\<exists>reqs res amount. requires_resources d = Some reqs \<and> (res, amount) \<in> set reqs \<and>
            dict_get r res 0 < amount) \<or>
       (\<exists>cost res amount. resource_cost d = Some cost \<and> (res, amount) \<in> set cost \<and>
            dict_get r res 0 < amount)" by simp
    show "\<exists>m. is_failure m \<and> execute_action vr action v r b = Inr (v, r, b, m)"
    proof (cases "job_requirements d \<noteq> [] \<and> job v \<notin> set (job_requirements d)")
      case True
      then show ?thesis using Some
        by (auto simp: execute_action_def intro!: exI[of _ "WrongJob (name v) action"])
    next
      case jobok: False
      show ?thesis
      proof (cases "stamina v < (case stamina_cost d of None \<Rightarrow> 0 | Some c \<Rightarrow> c)")
        case True
        then show ?thesis using Some jobok
          by (auto simp: execute_action_def intro!: exI[of _ "TooTired (name v) action"])
      next
        case stok: False
        from cond jobok stok consider
          (gath) reqs res amount where "requires_resources d = Some reqs" "(res, amount) \<in> set reqs"
            "dict_get r res 0 < amount"
        | (bld) cost res amount where "resource_cost d = Some cost" "(res, amount) \<in> set cost"
            "dict_get r res 0 < amount"
          by blast
        then show ?thesis
        proof cases
          case gath
          from ACTIONS_shape[OF Some] gath(1)
          have sh: "action \<noteq> ''rest''" "resource d \<noteq> None" by auto
          from gathering_short[OF gath] obtain res'
            where "execute_resource_gathering vr action v r b d = Inr (v, r, b, NotEnoughFor res' action)"
            by blast
          then show ?thesis using Some jobok stok sh
            by (auto simp: execute_action_def intro!: exI[of _ "NotEnoughFor res' action"])
        next
          case bld
          from ACTIONS_shape[OF Some] bld(1)
          have sh: "action \<noteq> ''rest''" "resource d = None" "building d \<noteq> None" by auto
          from building_short[OF bld] obtain res'
            where "execute_building action v r b d = Inr (v, r, b, NotEnoughTo res' action)"
            by blast
          then show ?thesis using Some jobok stok sh
            by (auto simp: execute_action_def intro!: exI[of _ "NotEnoughTo res' action"])
        qed
      qed
    qed
  qed
qed

text \<open>
  Claim C4. Whenever \<open>execute_action\<close> rejects (the action is unknown, the villager's job is
  not among the action's jobs, the stamina is below the action's cost, a prerequisite resource
  of the action is short, or a resource of a building's cost is short), it returns the
  villager, the resources and the buildings it was given, with a failure message; and any
  result that carries a failure message carries the inputs unchanged. A villager with
  stamina 0.1 whose job allows \<open>chop_wood\<close> (cost 0.15) is rejected as too tired, its stamina
  still 0.1.
\<close>

theorem execute_action_rejection_unchanged:
  "((map_of ACTIONS action = None \<or>
     (\<exists>d. map_of ACTIONS action = Some d \<and>
        ((job_requirements d \<noteq> [] \<and> job v \<notin> set (job_requirements d)) \<or>
         stamina v < (case stamina_cost d of None \<Rightarrow> 0 | Some c \<Rightarrow> c) \<or>
         (\<exists>reqs res amount. requires_resources d = Some reqs \<and> (res, amount) \<in> set reqs \<and>
              dict_get r res 0 < amount) \<or>
         (\<exists>cost res amount. resource_cost d = Some cost \<and> (res, amount) \<in> set cost \<and>
              dict_get r res 0 < amount))))
    \<longrightarrow> (\<exists>m. is_failure m \<and> execute_action vr action v r b = Inr (v, r, b, m))) \<and>
   (\<forall>v' r' b' m. execute_action vr action v r b = Inr (v', r', b', m) \<and> is_failure m
        \<longrightarrow> v' = v \<and> r' = r \<and> b' = b) \<and>
   (stamina v = 0.1 \<longrightarrow> job v \<in> set [''woodcutter'', ''lumberjack'', ''builder'']
        \<longrightarrow> execute_action vr ''chop_wood'' v r b = Inr (v, r, b, TooTired (name v) ''chop_wood'')
            \<and> stamina v = 0.1)"
proof (intro conjI)
  show "(map_of ACTIONS action = None \<or>
     (\<exists>d. map_of ACTIONS action = Some d \<and>
        ((job_requirements d \<noteq> [] \<and> job v \<notin> set (job_requirements d)) \<or>
         stamina v < (case stamina_cost d of None \<Rightarrow> 0 | Some c \<Rightarrow> c) \<or>
         (\<exists>reqs res amount. requires_resources d = Some reqs \<and> (res, amount) \<in> set reqs \<and>
              dict_get r res 0 < amount) \<or>
         (\<exists>cost res amount. resource_cost d = Some cost \<and> (res, amount) \<in> set cost \<and>
              dict_get r res 0 < amount))))
    \<longrightarrow> (\<exists>m. is_failure m \<and> execute_action vr action v r b = Inr (v, r, b, m))"
    by (rule rejected_returns_inputs)
next
  show "\<forall>v' r' b' m. execute_action vr action v r b = Inr (v', r', b', m) \<and> is_failure m
        \<longrightarrow> v' = v \<and> r' = r \<and> b' = b"
    by (auto simp: execute_action_def execute_rest_def execute_resource_gathering_def
        execute_building_def bind_err_def index_def Let_def
        split: option.splits if_splits sum.splits prod.splits)
next
  show "stamina v = 0.1 \<longrightarrow> job v \<in> set [''woodcutter'', ''lumberjack'', ''builder'']
        \<longrightarrow> execute_action vr ''chop_wood'' v r b = Inr (v, r, b, TooTired (name v) ''chop_wood'')
            \<and> stamina v = 0.1"
    by (auto simp: execute_action_def ACTIONS_def no_keys_def)
qed

theorem execute_action_rejection_unchanged_witness:
  "execute_action 1 ''chop_wood''
     \<lparr>name = ''Alice'', job = ''woodcutter'', job_tier = Some 1, stamina = 0.1,
       experience = 0, assigned_task = Some ''chop_wood''\<rparr>
     [''wood'' \<mapsto> 50, ''food'' \<mapsto> 50, ''stone'' \<mapsto> 20]
     [''houses'' \<mapsto> 1, ''workshops'' \<mapsto> 0, ''farms'' \<mapsto> 0]
   = Inr (\<lparr>name = ''Alice'', job = ''woodcutter'', job_tier = Some 1, stamina = 0.1,
            experience = 0, assigned_task = Some ''chop_wood''\<rparr>,
          [''wood'' \<mapsto> 50, ''food'' \<mapsto> 50, ''stone'' \<mapsto> 20],
          [''houses'' \<mapsto> 1, ''workshops'' \<mapsto> 0, ''farms'' \<mapsto> 0],
          TooTired ''Alice'' ''chop_wood'')"
  using execute_action_rejection_unchanged
    [of "''chop_wood''"
        "\<lparr>name = ''Alice'', job = ''woodcutter'', job_tier = Some 1, stamina = 0.1,
          experience = 0, assigned_task = Some ''chop_wood''\<rparr>"
        "[''wood'' \<mapsto> 50, ''food'' \<mapsto> 50, ''stone'' \<mapsto> 20]" 1
        "[''houses'' \<mapsto> 1, ''workshops'' \<mapsto> 0, ''farms'' \<mapsto> 0]"]
  by simp

section \<open>The builder's build action\<close>

text \<open>
  Claim C9. A build request of the builder is rejected, the builder unchanged, if the target
  is out of the grid's bounds, if its Manhattan distance from the builder exceeds 2, if the
  building type is not house, workshop or farm, or if the private inventory lacks the fixed
  cost (house 50 wood and 20 stone, workshop 100 and 50, farm 30 and 10). Otherwise exactly
  that cost leaves the inventory, the build is logged, and nothing else the builder holds
  changes: not its position, not its food, not the grid manager it shares (the action has no
  access to a village's building counters at all). A builder at (5, 5) holding 100 wood and
  50 stone that builds a house at (6, 5) ends with 50 wood and 30 stone.
\<close>

theorem action_build_contract:
  "((\<not> (0 \<le> bx \<and> bx < grid_size (grid_manager a) \<and> 0 \<le> by \<and> by < grid_size (grid_manager a))
     \<or> \<bar>bx - fst (position a)\<bar> + \<bar>by - snd (position a)\<bar> > 2
     \<or> ty \<notin> set [''house'', ''workshop'', ''farm'']
     \<or> (\<exists>w s. (ty, w, s) \<in> set [(''house'', 50, 20), (''workshop'', 100, 50), (''farm'', 30, 10)]
            \<and> (wood (inventory a) < w \<or> stone (inventory a) < s)))
    \<longrightarrow> (\<exists>e. action_build ty bx by a = (a, BuildFailure e))) \<and>
   (\<forall>w s. 0 \<le> bx \<and> bx < grid_size (grid_manager a) \<and> 0 \<le> by \<and> by < grid_size (grid_manager a)
      \<and> \<bar>bx - fst (position a)\<bar> + \<bar>by - snd (position a)\<bar> \<le> 2
      \<and> (ty, w, s) \<in> set [(''house'', 50, 20), (''workshop'', 100, 50), (''farm'', 30, 10)]
      \<and> w \<le> wood (inventory a) \<and> s \<le> stone (inventory a)
    \<longrightarrow> action_build ty bx by a =
          (a\<lparr>inventory := (inventory a)\<lparr>wood := wood (inventory a) - w,
                                        stone := stone (inventory a) - s\<rparr>,
             action_history := action_history a @ [BuildEntry ty (bx, by) (w, s)]\<rparr>,
           BuildSuccess ty (bx, by) (w, s)
             ((inventory a)\<lparr>wood := wood (inventory a) - w, stone := stone (inventory a) - s\<rparr>))
        \<and> grid_manager (fst (action_build ty bx by a)) = grid_manager a
        \<and> position (fst (action_build ty bx by a)) = position a
        \<and> food (inventory (fst (action_build ty bx by a))) = food (inventory a)) \<and>
   (position a = (5, 5) \<and> wood (inventory a) = 100 \<and> stone (inventory a) = 50
      \<and> 6 < grid_size (grid_manager a)
    \<longrightarrow> (\<exists>res. action_build ''house'' 6 5 a = (res, BuildSuccess ''house'' (6, 5) (50, 20) (inventory res))
          \<and> wood (inventory res) = 50 \<and> stone (inventory res) = 30))"
  by (auto simp: action_build_def requirements_def Let_def)

theorem action_build_contract_witness:
  "(\<exists>e. action_build ''castle'' 6 5
          \<lparr>agent_id = ''builder_1'', position = (5, 5),
            inventory = \<lparr>wood = 100, stone = 50, food = 0\<rparr>, current_task = None,
            action_history = [], grid_manager = new_grid_manager 10\<rparr>
        = (\<lparr>agent_id = ''builder_1'', position = (5, 5),
            inventory = \<lparr>wood = 100, stone = 50, food = 0\<rparr>, current_task = None,
            action_history = [], grid_manager = new_grid_manager 10\<rparr>, BuildFailure e)) \<and>
   inventory (fst (action_build ''house'' 6 5
          \<lparr>agent_id = ''builder_1'', position = (5, 5),
            inventory = \<lparr>wood = 100, stone = 50, food = 0\<rparr>, current_task = None,
            action_history = [], grid_manager = new_grid_manager 10\<rparr>))
     = \<lparr>wood = 50, stone = 30, food = 0\<rparr>"
  using action_build_contract
    [of 6 "\<lparr>agent_id = ''builder_1'', position = (5, 5),
            inventory = \<lparr>wood = 100, stone = 50, food = 0\<rparr>, current_task = None,
            action_history = [], grid_manager = new_grid_manager 10\<rparr>" 5 "''castle''"]
    action_build_contract
    [of 6 "\<lparr>agent_id = ''builder_1'', position = (5, 5),
            inventory = \<lparr>wood = 100, stone = 50, food = 0\<rparr>, current_task = None,
            action_history = [], grid_manager = new_grid_manager 10\<rparr>" 5 "''house''"]
  by (simp add: new_grid_manager_def)

section \<open>Resource pools under \<open>execute_action\<close>\<close>

lemma py_int_nonneg: "0 \<le> x \<Longrightarrow> 0 \<le> py_int x"
  by (simp add: py_int_def)

lemma tier_multiplier_ge_1: "1 \<le> tier_multiplier t"
  by (auto simp: tier_multiplier_def TIER_MULTIPLIERS_def split: option.splits)

lemma ACTIONS_gather:
  assumes "map_of ACTIONS action = Some d" "resource d = Some rt"
  shows "action \<noteq> ''rest'' \<and> rt \<in> set [''wood'', ''food'', ''stone''] \<and>
         base_yield d \<noteq> None \<and> (\<forall>base. base_yield d = Some base \<longrightarrow> 0 < base) \<and>
         (case stamina_cost d of None \<Rightarrow> False | Some c \<Rightarrow> True) \<and> 0 \<le> experience_gain d \<and>
         (requires_resources d = None \<or>
          (requires_resources d = Some [(''food'', 10)] \<and> rt = ''food''))"
  using assms unfolding ACTIONS_def no_keys_def
  by (auto split: if_splits)

lemma ACTIONS_build:
  assumes "map_of ACTIONS action = Some d" "resource d = None" "action \<noteq> ''rest''"
  shows "building d \<noteq> None \<and> (case stamina_cost d of None \<Rightarrow> False | Some c \<Rightarrow> True) \<and>
         resource_cost d \<in> Some ` {[(''wood'', 50), (''stone'', 30)], [(''wood'', 80), (''stone'', 60)],
             [(''wood'', 40), (''food'', 20)]}"
  using assms unfolding ACTIONS_def no_keys_def
  by (auto split: if_splits)

lemma ACTIONS_rest:
  assumes "map_of ACTIONS ''rest'' = Some d"
  shows "stamina_gain d = Some 0.4 \<and> stamina_cost d = None \<and> job_requirements d = []"
  using assms unfolding ACTIONS_def no_keys_def
  by (auto split: if_splits)

lemma gathering_nonneg:
  assumes "pools_nonneg r" "0 \<le> vr" "map_of ACTIONS action = Some d" "resource d = Some rt"
  shows "\<exists>v' r' m. execute_resource_gathering vr action v r b d = Inr (v', r', b, m) \<and> pools_nonneg r'"
proof -
  from ACTIONS_gather[OF assms(3,4)] obtain base cost where
    f: "rt \<in> set [''wood'', ''food'', ''stone'']" "base_yield d = Some base" "0 < base"
       "stamina_cost d = Some cost"
       "requires_resources d = None \<or> (requires_resources d = Some [(''food'', 10)] \<and> rt = ''food'')"
    by (cases "stamina_cost d"; cases "base_yield d") auto
  have y: "0 \<le> py_int (real_of_int base * tier_multiplier (job_tier v) * vr)"
    using f(3) assms(2) tier_multiplier_ge_1[of "job_tier v"]
    by (intro py_int_nonneg mult_nonneg_nonneg) auto
  from f(5) show ?thesis
  proof
    assume "requires_resources d = None"
    then show ?thesis using f(1,2,4) assms(1,4) y
      by (auto simp: execute_resource_gathering_def bind_err_simps index_simps Let_def
          pools_nonneg_def dict_get_def)
  next
    assume "requires_resources d = Some [(''food'', 10)] \<and> rt = ''food''"
    then show ?thesis using f(2,4) assms(1,4) y
      by (auto simp: execute_resource_gathering_def bind_err_simps index_simps Let_def
          pools_nonneg_def dict_get_def first_short_def split: option.splits)
  qed
qed

lemma building_nonneg:
  assumes "pools_nonneg r" "map_of ACTIONS action = Some d" "resource d = None" "action \<noteq> ''rest''"
  shows "\<exists>v' r' b' m. execute_building action v r b d = Inr (v', r', b', m) \<and> pools_nonneg r'"
proof -
  from ACTIONS_build[OF assms(2-4)] obtain bt cost where
    f: "building d = Some bt" "stamina_cost d = Some cost"
       "resource_cost d \<in> Some ` {[(''wood'', 50), (''stone'', 30)], [(''wood'', 80), (''stone'', 60)],
             [(''wood'', 40), (''food'', 20)]}"
    by (cases "stamina_cost d"; cases "building d") auto
  from f(3) consider "resource_cost d = Some [(''wood'', 50), (''stone'', 30)]"
    | "resource_cost d = Some [(''wood'', 80), (''stone'', 60)]"
    | "resource_cost d = Some [(''wood'', 40), (''food'', 20)]" by auto
  then show ?thesis
  proof cases
    case 1
    then show ?thesis using f(1,2) assms(1)
      by (auto simp: execute_building_def bind_err_simps index_simps Let_def
          pools_nonneg_def dict_get_def first_short_def split: option.splits)
  next
    case 2
    then show ?thesis using f(1,2) assms(1)
      by (auto simp: execute_building_def bind_err_simps index_simps Let_def
          pools_nonneg_def dict_get_def first_short_def split: option.splits)
  next
    case 3
    then show ?thesis using f(1,2) assms(1)
      by (auto simp: execute_building_def bind_err_simps index_simps Let_def
          pools_nonneg_def dict_get_def first_short_def split: option.splits)
  qed
qed

lemma execute_action_nonneg:
  assumes "pools_nonneg r" "0 \<le> vr"
  shows "\<exists>v' r' b' m. execute_action vr action v r b = Inr (v', r', b', m) \<and> pools_nonneg r'"
proof (cases "map_of ACTIONS action")
  case None
  then show ?thesis using assms by (simp add: execute_action_def)
next
  case (Some d)
  show ?thesis
  proof (cases "action = ''rest''")
    case True
    with Some ACTIONS_rest[of d] show ?thesis using assms
      by (auto simp: execute_action_def execute_rest_def bind_err_simps index_simps Let_def)
  next
    case nr: False
    show ?thesis
    proof (cases "resource d")
      case None
      from ACTIONS_build[OF Some None nr] have bd: "building d \<noteq> None" by auto
      from building_nonneg[OF assms(1) Some None nr, of v b] show ?thesis
        using Some None nr bd assms(1) by (auto simp: execute_action_def)
    next
      case (Some rt)
      from gathering_nonneg[OF assms \<open>map_of ACTIONS action = Some d\<close> Some, of v b] show ?thesis
        using Some nr \<open>map_of ACTIONS action = Some d\<close> assms(1) by (auto simp: execute_action_def)
    qed
  qed
qed

lemma execute_actions_nonneg:
  "pools_nonneg r \<Longrightarrow> \<forall>c\<in>set calls. 0 \<le> fst c \<Longrightarrow>
   \<exists>rs. execute_actions calls r = Inr rs \<and> length rs = length calls \<and> (\<forall>r'\<in>set rs. pools_nonneg r')"
proof (induction calls arbitrary: r)
  case Nil
  then show ?case by simp
next
  case (Cons c calls)
  obtain vr action v b where c: "c = (vr, action, v, b)" by (cases c) auto
  with Cons.prems have "0 \<le> vr" by simp
  from execute_action_nonneg[OF Cons.prems(1) this, of action v b] obtain v' r' b' m
    where s: "execute_action vr action v r b = Inr (v', r', b', m)" "pools_nonneg r'" by blast
  from Cons.IH[OF s(2)] Cons.prems(2) obtain rs where
    "execute_actions calls r' = Inr rs" "length rs = length calls" "\<forall>r'\<in>set rs. pools_nonneg r'"
    by auto
  then show ?case using s c by (simp add: bind_err_simps)
qed


text \<open>
  Claim C1. Starting from pools that are not negative, every sequence of calls of
  \<open>execute_action\<close>, each with a yield draw between 0.8 and 1.2, returns without an exception
  and leaves the pools not negative after every call. A call whose action needs more of a
  resource than the pool holds (the prerequisite of \<open>cook_food\<close>, the cost of a building) is
  rejected and returns the resources it was given.
\<close>

theorem resource_pools_never_negative:
  "(pools_nonneg r \<and> (\<forall>c\<in>set calls. 0.8 \<le> fst c \<and> fst c \<le> 1.2)
      \<longrightarrow> (\<exists>rs. execute_actions calls r = Inr rs \<and> length rs = length calls \<and>
                (\<forall>r'\<in>set rs. pools_nonneg r'))) \<and>
   ((\<exists>d items res amount. map_of ACTIONS action = Some d \<and>
        (requires_resources d = Some items \<or> resource_cost d = Some items) \<and>
        (res, amount) \<in> set items \<and> dict_get r res 0 < amount)
      \<longrightarrow> (\<exists>m. is_failure m \<and> execute_action vr action v r b = Inr (v, r, b, m)))"
proof (intro conjI impI)
  assume a: "pools_nonneg r \<and> (\<forall>c\<in>set calls. 0.8 \<le> fst c \<and> fst c \<le> 1.2)"
  then have "\<forall>c\<in>set calls. 0 \<le> fst c" by fastforce
  with a show "\<exists>rs. execute_actions calls r = Inr rs \<and> length rs = length calls \<and>
                (\<forall>r'\<in>set rs. pools_nonneg r')"
    by (intro execute_actions_nonneg) auto
next
  assume "\<exists>d items res amount. map_of ACTIONS action = Some d \<and>
        (requires_resources d = Some items \<or> resource_cost d = Some items) \<and>
        (res, amount) \<in> set items \<and> dict_get r res 0 < amount"
  then have "map_of ACTIONS action = None \<or>
     (\<exists>d. map_of ACTIONS action = Some d \<and>
        ((job_requirements d \<noteq> [] \<and> job v \<notin> set (job_requirements d)) \<or>
         stamina v < (case stamina_cost d of None \<Rightarrow> 0 | Some c \<Rightarrow> c) \<or>
         (\<exists>reqs res amount. requires_resources d = Some reqs \<and> (res, amount) \<in> set reqs \<and>
              dict_get r res 0 < amount) \<or>
         (\<exists>cost res amount. resource_cost d = Some cost \<and> (res, amount) \<in> set cost \<and>
              dict_get r res 0 < amount)))"
    by blast
  with rejected_returns_inputs[of action v r vr b]
  show "\<exists>m. is_failure m \<and> execute_action vr action v r b = Inr (v, r, b, m)"
    by blast
qed

theorem resource_pools_never_negative_witness:
  "\<exists>rs. execute_actions
          [(1, ''chop_wood'',
            \<lparr>name = ''Alice'', job = ''woodcutter'', job_tier = Some 1, stamina = 1,
              experience = 0, assigned_task = None\<rparr>, Map.empty),
           (1, ''build_house'',
            \<lparr>name = ''Dan'', job = ''builder'', job_tier = Some 3, stamina = 1,
              experience = 0, assigned_task = None\<rparr>, Map.empty)]
          [''wood'' \<mapsto> 45, ''food'' \<mapsto> 0, ''stone'' \<mapsto> 30] = Inr rs \<and>
        length rs = 2 \<and> list_all pools_nonneg rs"
proof -
  have h: "pools_nonneg [''wood'' \<mapsto> 45, ''food'' \<mapsto> 0, ''stone'' \<mapsto> 30] \<and>
      (\<forall>c\<in>set [(1::real, ''chop_wood'',
            \<lparr>name = ''Alice'', job = ''woodcutter'', job_tier = Some 1, stamina = 1,
              experience = 0, assigned_task = None\<rparr>, Map.empty :: buildings),
           (1, ''build_house'',
            \<lparr>name = ''Dan'', job = ''builder'', job_tier = Some 3, stamina = 1,
              experience = 0, assigned_task = None\<rparr>, Map.empty)]. 0.8 \<le> fst c \<and> fst c \<le> 1.2)"
    by (simp add: pools_nonneg_def dict_get_def)
  from conjunct1[OF resource_pools_never_negative, rule_format, OF h]
  show ?thesis by (auto simp: list_all_iff)
qed

section \<open>The rule-based oracle\<close>





lemma check_promotion_total:
  assumes "r ''wood'' \<noteq> None" "r ''food'' \<noteq> None" "r ''stone'' \<noteq> None"
  shows "\<exists>res. check_promotion j t xp r = Inr res"
proof -
  from assms obtain w f s where "r ''wood'' = Some w" "r ''food'' = Some f" "r ''stone'' = Some s"
    by auto
  then show ?thesis
    by (simp add: check_promotion_def bind_err_simps index_simps)
qed

lemma assign_task_total:
  assumes "r ''wood'' \<noteq> None" "r ''food'' \<noteq> None" "r ''stone'' \<noteq> None"
  shows "\<exists>t. assign_task j tier r = Inr t"
proof -
  from assms obtain w f s where "r ''wood'' = Some w" "r ''food'' = Some f" "r ''stone'' = Some s"
    by auto
  then show ?thesis
    by (simp add: assign_task_def bind_err_simps index_simps)
qed

lemma fallback_loop_total:
  assumes "r ''wood'' \<noteq> None" "r ''food'' \<noteq> None" "r ''stone'' \<noteq> None"
  shows "\<exists>res. fallback_loop r vs acc = Inr res"
proof (induction vs arbitrary: acc)
  case Nil
  then show ?case by simp
next
  case (Cons v vs)
  obtain as bas where acc: "acc = (as, bas)" by (cases acc)
  obtain nj nt where cp: "check_promotion (job v) (job_tier v) (experience v) r = Inr (nj, nt)"
    using check_promotion_total[OF assms] by (metis surj_pair)
  obtain t where at: "assign_task nj nt r = Inr t"
    using assign_task_total[OF assms] by blast
  show ?case unfolding acc using Cons.IH cp at
    by (simp add: bind_err_simps)
qed


lemma fallback_loop_mono:
  "fallback_loop r vs (as, bas) = Inr (as', bas') \<Longrightarrow> set as \<subseteq> set as' \<and> set bas \<subseteq> set bas'"
proof (induction vs arbitrary: as bas)
  case Nil
  then show ?case by simp
next
  case (Cons v vs)
  show ?case
  proof (cases "stamina v < 0.2")
    case True
    with Cons.prems have "fallback_loop r vs (as @ [rest_assignment v], bas) = Inr (as', bas')"
      by (simp add: rest_assignment_def)
    from Cons.IH[OF this] show ?thesis by auto
  next
    case False
    from Cons.prems False obtain nj nt where
      cp: "check_promotion (job v) (job_tier v) (experience v) r = Inr (nj, nt)"
      by (cases "check_promotion (job v) (job_tier v) (experience v) r")
         (auto simp: bind_err_simps)
    from Cons.prems False cp obtain t where at: "assign_task nj nt r = Inr t"
      by (cases "assign_task nj nt r") (auto simp: bind_err_simps)
    let ?a = "\<lparr>a_name = Some (name v), new_job = Some nj, a_job_tier = nt, task = Some t\<rparr>"
    let ?bas1 = "if nt = Some 3 \<and> prefix ''build_'' t
                 then bas @ [\<lparr>ba_building = Some (str_replace ''build_'' [] t),
                              assigned_to = Some (name v)\<rparr>]
                 else bas"
    from Cons.prems False cp at have
      "fallback_loop r vs (as @ [?a], ?bas1) = Inr (as', bas')"
      by (simp add: bind_err_simps)
    from Cons.IH[OF this] show ?thesis by (auto split: if_splits)
  qed
qed

lemma fallback_loop_member:
  "v \<in> set vs \<Longrightarrow> \<not> stamina v < 0.2 \<Longrightarrow>
   check_promotion (job v) (job_tier v) (experience v) r = Inr (nj, nt) \<Longrightarrow>
   assign_task nj nt r = Inr t \<Longrightarrow>
   fallback_loop r vs (as, bas) = Inr (as', bas') \<Longrightarrow>
   \<lparr>a_name = Some (name v), new_job = Some nj, a_job_tier = nt, task = Some t\<rparr> \<in> set as' \<and>
   (nt = Some 3 \<and> prefix ''build_'' t \<longrightarrow>
      \<lparr>ba_building = Some (str_replace ''build_'' [] t), assigned_to = Some (name v)\<rparr> \<in> set bas')"
proof (induction vs arbitrary: as bas)
  case Nil
  then show ?case by simp
next
  case (Cons u vs)
  show ?case
  proof (cases "u = v")
    case True
    let ?a = "\<lparr>a_name = Some (name v), new_job = Some nj, a_job_tier = nt, task = Some t\<rparr>"
    let ?ba = "\<lparr>ba_building = Some (str_replace ''build_'' [] t), assigned_to = Some (name v)\<rparr>"
    from Cons.prems True have
      "fallback_loop r vs (as @ [?a], if nt = Some 3 \<and> prefix ''build_'' t then bas @ [?ba] else bas)
         = Inr (as', bas')"
      by (simp add: bind_err_simps)
    from fallback_loop_mono[OF this] show ?thesis by auto
  next
    case False
    with Cons.prems have vin: "v \<in> set vs" by simp
    show ?thesis
    proof (cases "stamina u < 0.2")
      case True
      with Cons.prems have "fallback_loop r vs (as @ [rest_assignment u], bas) = Inr (as', bas')"
        by (simp add: rest_assignment_def)
      from Cons.IH[OF vin Cons.prems(2,3,4) this] show ?thesis .
    next
      case nt: False
      from Cons.prems(5) nt obtain nj' nt' where
        cp: "check_promotion (job u) (job_tier u) (experience u) r = Inr (nj', nt')"
        by (cases "check_promotion (job u) (job_tier u) (experience u) r")
           (auto simp: bind_err_simps)
      from Cons.prems(5) nt cp obtain t' where at: "assign_task nj' nt' r = Inr t'"
        by (cases "assign_task nj' nt' r") (auto simp: bind_err_simps)
      from Cons.prems(5) nt cp at obtain as1 bas1 where
        "fallback_loop r vs (as1, bas1) = Inr (as', bas')"
        by (auto simp: bind_err_simps split: if_splits)
      from Cons.IH[OF vin Cons.prems(2,3,4) this] show ?thesis .
    qed
  qed
qed

lemma str_replace_build_house: "str_replace ''build_'' [] ''build_house'' = ''house''"
  by simp

text \<open>
  Claim C6. In a village whose resources are 250 wood, 0 stone and 0 food, the fallback rules
  return decisions in which an actor that is a lumberjack of tier 2 with experience 90 and
  stamina at least 0.2 is promoted to builder at tier 3 with the task \<open>build_house\<close>, and the
  build actions name a house assigned to that actor.
\<close>

theorem fallback_promotes_lumberjack:
  "resources s = [''wood'' \<mapsto> 250, ''stone'' \<mapsto> 0, ''food'' \<mapsto> 0] \<and> v \<in> set (villagers s) \<and>
   job v = ''lumberjack'' \<and> job_tier v = Some 2 \<and> experience v = 90 \<and> 0.2 \<le> stamina v
   \<longrightarrow> (\<exists>as bas. fallback_logic s = Inr \<lparr>assignments = Some as, build_actions = Some bas\<rparr> \<and>
          \<lparr>a_name = Some (name v), new_job = Some ''builder'', a_job_tier = Some 3,
            task = Some ''build_house''\<rparr> \<in> set as \<and>
          \<lparr>ba_building = Some ''house'', assigned_to = Some (name v)\<rparr> \<in> set bas)"
proof
  assume a: "resources s = [''wood'' \<mapsto> 250, ''stone'' \<mapsto> 0, ''food'' \<mapsto> 0] \<and> v \<in> set (villagers s) \<and>
   job v = ''lumberjack'' \<and> job_tier v = Some 2 \<and> experience v = 90 \<and> 0.2 \<le> stamina v"
  let ?r = "[''wood'' \<mapsto> 250, ''stone'' \<mapsto> 0, ''food'' \<mapsto> (0::int)]"
  have "\<exists>res. fallback_loop ?r (villagers s) ([], []) = Inr res"
    by (rule fallback_loop_total) simp_all
  then obtain as bas where fl: "fallback_loop ?r (villagers s) ([], []) = Inr (as, bas)"
    by (metis surj_pair)
  have cp: "check_promotion (job v) (job_tier v) (experience v) ?r = Inr (''builder'', Some 3)"
    using a by (simp add: check_promotion_def bind_err_simps index_simps)
  have at: "assign_task ''builder'' (Some 3) ?r = Inr ''build_house''"
    by (simp add: assign_task_def bind_err_simps index_simps)
  have ns: "\<not> stamina v < 0.2" using a by simp
  from a have vin: "v \<in> set (villagers s)" by simp
  from fallback_loop_member[OF vin ns cp at fl]
  have "\<lparr>a_name = Some (name v), new_job = Some ''builder'', a_job_tier = Some 3,
            task = Some ''build_house''\<rparr> \<in> set as \<and>
          \<lparr>ba_building = Some ''house'', assigned_to = Some (name v)\<rparr> \<in> set bas"
    by simp
  moreover have "fallback_logic s = Inr \<lparr>assignments = Some as, build_actions = Some bas\<rparr>"
    using a fl by (simp add: fallback_logic_def bind_err_simps)
  ultimately show "\<exists>as bas. fallback_logic s = Inr \<lparr>assignments = Some as, build_actions = Some bas\<rparr> \<and>
          \<lparr>a_name = Some (name v), new_job = Some ''builder'', a_job_tier = Some 3,
            task = Some ''build_house''\<rparr> \<in> set as \<and>
          \<lparr>ba_building = Some ''house'', assigned_to = Some (name v)\<rparr> \<in> set bas"
    by blast
qed

theorem fallback_promotes_lumberjack_witness:
  "\<exists>as bas. fallback_logic
       \<lparr>resources = [''wood'' \<mapsto> 250, ''stone'' \<mapsto> 0, ''food'' \<mapsto> 0],
        villagers = [\<lparr>name = ''Alice'', job = ''lumberjack'', job_tier = Some 2, stamina = 1,
                      experience = 90, assigned_task = None\<rparr>],
        buildings = [''houses'' \<mapsto> 1], day = 1\<rparr>
      = Inr \<lparr>assignments = Some as, build_actions = Some bas\<rparr> \<and>
     \<lparr>a_name = Some ''Alice'', new_job = Some ''builder'', a_job_tier = Some 3,
       task = Some ''build_house''\<rparr> \<in> set as \<and>
     \<lparr>ba_building = Some ''house'', assigned_to = Some ''Alice''\<rparr> \<in> set bas"
  using fallback_promotes_lumberjack
    [where s = "\<lparr>resources = [''wood'' \<mapsto> 250, ''stone'' \<mapsto> 0, ''food'' \<mapsto> 0],
        villagers = [\<lparr>name = ''Alice'', job = ''lumberjack'', job_tier = Some 2, stamina = 1,
                      experience = 90, assigned_task = None\<rparr>],
        buildings = [''houses'' \<mapsto> 1], day = 1\<rparr>"
       and v = "\<lparr>name = ''Alice'', job = ''lumberjack'', job_tier = Some 2, stamina = 1,
                      experience = 90, assigned_task = None\<rparr>"]
  by simp

section \<open>The trees of the grid\<close>

lemma update_fresh: "k \<notin> fst ` set al \<Longrightarrow> AList.update k v al = al @ [(k, v)]"
  by (induction al) auto

lemma update_present:
  "map_of al k = Some v \<Longrightarrow> h v' = h v \<Longrightarrow>
   map (\<lambda>kt. h (snd kt)) (AList.update k v' al) = map (\<lambda>kt. h (snd kt)) al"
  by (induction al) auto

lemma grow_trees_ids:
  "grow_trees k j dr c ts0 = (ts, c') \<Longrightarrow>
   c' = c + int k \<and> map tree_id ts = map tree_id ts0 @ [c..c + int k - 1]"
proof (induction k arbitrary: j c ts0)
  case 0
  then show ?case by simp
next
  case (Suc k)
  obtain ox oy species where d: "dr j = (ox, oy, species)" by (cases "dr j")
  let ?t = "\<lparr>tree_id = c, tree_pos = \<lparr>offset_x = ox, offset_y = oy\<rparr>, cut = False,
             tree_type = species\<rparr>"
  from Suc.prems d have "grow_trees k (Suc j) dr (c + 1) (ts0 @ [?t]) = (ts, c')"
    by (simp add: get_next_tree_id_def)
  from Suc.IH[OF this] have "c' = c + 1 + int k"
    "map tree_id ts = map tree_id (ts0 @ [?t]) @ [c + 1..c + 1 + int k - 1]" by auto
  moreover have "[c..c + int (Suc k) - 1] = c # [c + 1..c + 1 + int k - 1]"
    by (subst upto_rec1) (auto simp: algebra_simps)
  ultimately show ?case by simp
qed

lemma generate_trees_ids:
  assumes "generate_trees_for_tile dr ty c = (ts, c')"
  shows "c \<le> c' \<and> map tree_id ts = [c..c' - 1] \<and> (ty = ''water'' \<longrightarrow> ts = [])"
proof (cases "ty = ''water''")
  case True
  with assms show ?thesis by (simp add: generate_trees_for_tile_def)
next
  case False
  with assms grow_trees_ids[of "nat (if rand_trees dr < 0.7 then num_trees dr else 0)" 0
      "tree_draws dr" c "[]" ts c']
  show ?thesis by (simp add: generate_trees_for_tile_def)
qed

lemma init_cell_inv:
  assumes "grid_inv g" "cell \<notin> fst ` set (grid g)"
  shows "grid_inv (init_cell draws cell g) \<and>
         fst ` set (grid (init_cell draws cell g)) = insert cell (fst ` set (grid g)) \<and>
         grid_size (init_cell draws cell g) = grid_size g"
proof -
  obtain cx cy where c: "cell = (cx, cy)" by (cases cell)
  let ?ty = "random_tile_type (rand_type (draws cx cy))"
  obtain ts c' where gt: "generate_trees_for_tile (draws cx cy) ?ty (tree_id_counter g) = (ts, c')"
    by (cases "generate_trees_for_tile (draws cx cy) ?ty (tree_id_counter g)")
  let ?tile = "\<lparr>tile_x = cx, tile_y = cy, tile_type = ?ty, tile_image_url = None, trees = ts\<rparr>"
  have ic: "init_cell draws cell g =
      g\<lparr>grid := grid g @ [(cell, ?tile)], tree_id_counter := c'\<rparr>"
    using gt assms(2) c by (simp add: init_cell_def Let_def update_fresh)
  from generate_trees_ids[OF gt] have
    ids: "tree_id_counter g \<le> c'" "map tree_id ts = [tree_id_counter g..c' - 1]"
      "?ty = ''water'' \<longrightarrow> ts = []" by auto
  from assms(1) have inv: "0 \<le> tree_id_counter g"
    "map tree_id (all_trees g) = [0..tree_id_counter g - 1]"
    "\<forall>kt\<in>set (grid g). tile_type (snd kt) = ''water'' \<longrightarrow> trees (snd kt) = []"
    by (auto simp: grid_inv_def)
  have "[0..c' - 1] = [0..tree_id_counter g - 1] @ [tree_id_counter g..c' - 1]"
  proof (cases "tree_id_counter g = c'")
    case True
    then show ?thesis by simp
  next
    case False
    with ids(1) have "tree_id_counter g \<le> c' - 1" by simp
    from upto_split1[OF inv(1) this] show ?thesis .
  qed
  then have "map tree_id (all_trees (init_cell draws cell g)) = [0..c' - 1]"
    using inv(2) ids(2) by (simp add: ic all_trees_def)
  then show ?thesis using inv ids by (auto simp: ic grid_inv_def)
qed

lemma fold_init_cell_inv:
  "grid_inv g \<Longrightarrow> distinct cells \<Longrightarrow> set cells \<inter> fst ` set (grid g) = {} \<Longrightarrow>
   grid_inv (fold (init_cell draws) cells g) \<and>
   fst ` set (grid (fold (init_cell draws) cells g)) = set cells \<union> fst ` set (grid g)"
proof (induction cells arbitrary: g)
  case Nil
  then show ?case by simp
next
  case (Cons cell cells)
  from Cons.prems have fresh: "cell \<notin> fst ` set (grid g)" by auto
  from init_cell_inv[OF Cons.prems(1) fresh, of draws] have
    s: "grid_inv (init_cell draws cell g)"
       "fst ` set (grid (init_cell draws cell g)) = insert cell (fst ` set (grid g))" by auto
  have "set cells \<inter> fst ` set (grid (init_cell draws cell g)) = {}"
    using Cons.prems s(2) by auto
  from Cons.IH[OF s(1) _ this] Cons.prems(2) s(2) show ?case by auto
qed

lemma analyze_environment_inv: "grid_inv (analyze_environment hook g) = grid_inv g"
  by (simp add: analyze_environment_def grid_inv_def all_trees_def)

lemma initialize_grid_inv:
  assumes "grid g = []" "tree_id_counter g = 0"
  shows "grid_inv (initialize_grid draws hook g)"
proof -
  have "grid_inv g" using assms by (simp add: grid_inv_def all_trees_def)
  moreover have "distinct (List.product [0..grid_size g - 1] [0..grid_size g - 1])"
    by (intro distinct_product) simp_all
  ultimately have "grid_inv (fold (init_cell draws)
      (List.product [0..grid_size g - 1] [0..grid_size g - 1]) g)"
    using fold_init_cell_inv[of g "List.product [0..grid_size g - 1] [0..grid_size g - 1]" draws]
      assms(1) by simp
  then show ?thesis by (simp add: initialize_grid_def analyze_environment_inv)
qed

lemma cut_first_ids: "cut_first tid ts = Some ts' \<Longrightarrow> map tree_id ts' = map tree_id ts"
  by (induction ts arbitrary: ts') (auto split: if_splits)


lemma cut_first_Some:
  "cut_first tid ts = Some ts' \<Longrightarrow>
   \<exists>k<length ts. tree_id (ts ! k) = tid \<and> \<not> cut (ts ! k) \<and>
      (\<forall>j<k. \<not> (tree_id (ts ! j) = tid \<and> \<not> cut (ts ! j))) \<and>
      ts' = ts[k := (ts ! k)\<lparr>cut := True\<rparr>]"
proof (induction ts arbitrary: ts')
  case Nil
  then show ?case by simp
next
  case (Cons t ts)
  show ?case
  proof (cases "tree_id t = tid \<and> \<not> cut t")
    case True
    with Cons.prems have "ts' = (t # ts)[0 := ((t # ts) ! 0)\<lparr>cut := True\<rparr>]" by auto
    with True show ?thesis by (intro exI[of _ 0]) auto
  next
    case False
    with Cons.prems obtain ts1 where c: "cut_first tid ts = Some ts1" "ts' = t # ts1" by auto
    from Cons.IH[OF c(1)] obtain k where k: "k < length ts" "tree_id (ts ! k) = tid"
      "\<not> cut (ts ! k)" "\<forall>j<k. \<not> (tree_id (ts ! j) = tid \<and> \<not> cut (ts ! j))"
      "ts1 = ts[k := (ts ! k)\<lparr>cut := True\<rparr>]" by blast
    have "\<forall>j<Suc k. \<not> (tree_id ((t # ts) ! j) = tid \<and> \<not> cut ((t # ts) ! j))"
      using False k(4) by (auto simp: less_Suc_eq_0_disj)
    with k c(2) show ?thesis by (intro exI[of _ "Suc k"]) auto
  qed
qed


lemma cut_first_cut_count:
  "cut_first tid ts = Some ts' \<Longrightarrow>
   length (filter cut ts') = Suc (length (filter cut ts))"
  by (induction ts arbitrary: ts') (auto split: if_splits)

lemma cut_tree_inv:
  assumes "grid_inv g"
  shows "grid_inv (fst (cut_tree w hook px py tid g))"
proof (cases "map_of (grid g) (px, py)")
  case None
  then show ?thesis using assms by (simp add: cut_tree_def)
next
  case (Some ti)
  show ?thesis
  proof (cases "cut_first tid (trees ti)")
    case None
    then show ?thesis using assms Some by (simp add: cut_tree_def)
  next
    case cf: (Some ts)
    let ?h = "\<lambda>t. (tile_type t, map tree_id (trees t))"
    have heq: "?h (ti\<lparr>trees := ts\<rparr>) = ?h ti" using cut_first_ids[OF cf] by simp
    from update_present[OF Some, of ?h, OF heq]
    have m: "map (\<lambda>kt. ?h (snd kt)) (AList.update (px, py) (ti\<lparr>trees := ts\<rparr>) (grid g))
        = map (\<lambda>kt. ?h (snd kt)) (grid g)" .
    let ?g' = "AList.update (px, py) (ti\<lparr>trees := ts\<rparr>) (grid g)"
    have ids: "concat (map (\<lambda>kt. map tree_id (trees (snd kt))) ?g')
        = concat (map (\<lambda>kt. map tree_id (trees (snd kt))) (grid g))"
      using arg_cong[OF m, of "map snd"] by (simp add: comp_def)
    have water: "\<forall>kt\<in>set ?g'. tile_type (snd kt) = ''water'' \<longrightarrow> trees (snd kt) = []"
    proof -
      from assms have "\<forall>p\<in>set (map (\<lambda>kt. ?h (snd kt)) (grid g)). fst p = ''water'' \<longrightarrow> snd p = []"
        by (auto simp: grid_inv_def)
      then have "\<forall>p\<in>set (map (\<lambda>kt. ?h (snd kt)) ?g'). fst p = ''water'' \<longrightarrow> snd p = []"
        by (simp only: m)
      then show ?thesis by auto
    qed
    show ?thesis using assms Some cf ids water
      by (simp add: cut_tree_def analyze_environment_def grid_inv_def all_trees_def map_concat
          comp_def)
  qed
qed

lemma reachable_inv: "reachable g \<Longrightarrow> grid_inv g"
proof (induction rule: reachable.induct)
  case (init draws hook n)
  show ?case by (rule initialize_grid_inv) (simp_all add: new_grid_manager_def)
next
  case (reset g draws hook)
  show ?case unfolding reset_grid_def by (rule initialize_grid_inv) simp_all
next
  case (cut g w hook px py tid)
  from cut.IH show ?case by (rule cut_tree_inv)
qed

lemma count_total_trees_eq:
  "count_total_trees g = int (length (filter (\<lambda>t. \<not> cut t) (all_trees g)))"
proof -
  have "fold (\<lambda>ti count. count + int (length (filter (\<lambda>t. \<not> cut t) (trees ti)))) tiles acc
      = acc + int (length (filter (\<lambda>t. \<not> cut t) (concat (map trees tiles))))" for tiles acc
    by (induction tiles arbitrary: acc) auto
  from this[of "map snd (grid g)" 0] show ?thesis
    by (simp add: count_total_trees_def all_trees_def comp_def)
qed

lemma inv_counter: "grid_inv g \<Longrightarrow> tree_id_counter g = int (length (all_trees g))"
proof -
  assume a: "grid_inv g"
  then have "length (map tree_id (all_trees g)) = length [0..tree_id_counter g - 1]"
    by (simp add: grid_inv_def)
  moreover from a have "0 \<le> tree_id_counter g" by (simp add: grid_inv_def)
  ultimately show ?thesis by (simp add: length_upto)
qed


lemma inv_trees_cut:
  assumes "grid_inv g"
  shows "tree_id_counter g - count_total_trees g = int (length (filter cut (all_trees g)))"
proof -
  have "length (filter cut (all_trees g)) + length (filter (\<lambda>t. \<not> cut t) (all_trees g))
      = length (all_trees g)"
    by (rule sum_length_filter_compl)
  with inv_counter[OF assms] count_total_trees_eq[of g] show ?thesis by simp
qed





text \<open>
  Claim C8. In every state reached from \<open>initialize_grid\<close> by calls of \<open>cut_tree\<close> (and of
  \<open>reset_grid\<close>): the ids of the trees, read tile after tile in the order of creation, are
  \<open>0\<close>, ..., \<open>tree_id_counter - 1\<close>, so no two trees share an id and the ids increase strictly;
  the counter is the number of tree records on all tiles; the statistics of
  \<open>get_grid_state\<close> report the number of standing trees as \<open>total_trees\<close> and the number of
  trees whose \<open>cut\<close> flag is set as \<open>trees_cut\<close>; a water tile holds no tree.
\<close>

theorem tree_ids_unique_and_counted:
  "reachable g \<longrightarrow>
     map tree_id (all_trees g) = [0..tree_id_counter g - 1] \<and>
     distinct (map tree_id (all_trees g)) \<and>
     sorted_wrt (<) (map tree_id (all_trees g)) \<and>
     tree_id_counter g = int (length (all_trees g)) \<and>
     total_trees (gs_stats (get_grid_state g)) =
       int (length (filter (\<lambda>t. \<not> cut t) (all_trees g))) \<and>
     trees_cut (gs_stats (get_grid_state g)) = int (length (filter cut (all_trees g))) \<and>
     (\<forall>kt\<in>set (grid g). tile_type (snd kt) = ''water'' \<longrightarrow> trees (snd kt) = [])"
proof
  assume "reachable g"
  then have inv: "grid_inv g" by (rule reachable_inv)
  then have ids: "map tree_id (all_trees g) = [0..tree_id_counter g - 1]"
    and water: "\<forall>kt\<in>set (grid g). tile_type (snd kt) = ''water'' \<longrightarrow> trees (snd kt) = []"
    by (simp_all add: grid_inv_def)
  have d: "distinct (map tree_id (all_trees g))" by (simp only: ids distinct_upto)
  have s: "sorted_wrt (<) (map tree_id (all_trees g))" by (simp only: ids sorted_wrt_upto)
  have t: "total_trees (gs_stats (get_grid_state g)) =
       int (length (filter (\<lambda>t. \<not> cut t) (all_trees g)))"
    by (simp add: get_grid_state_def count_total_trees_eq)
  have c: "trees_cut (gs_stats (get_grid_state g)) = int (length (filter cut (all_trees g)))"
    using inv_trees_cut[OF inv] by (simp add: get_grid_state_def)
  from ids d s inv_counter[OF inv] t c water
  show "map tree_id (all_trees g) = [0..tree_id_counter g - 1] \<and>
     distinct (map tree_id (all_trees g)) \<and>
     sorted_wrt (<) (map tree_id (all_trees g)) \<and>
     tree_id_counter g = int (length (all_trees g)) \<and>
     total_trees (gs_stats (get_grid_state g)) =
       int (length (filter (\<lambda>t. \<not> cut t) (all_trees g))) \<and>
     trees_cut (gs_stats (get_grid_state g)) = int (length (filter cut (all_trees g))) \<and>
     (\<forall>kt\<in>set (grid g). tile_type (snd kt) = ''water'' \<longrightarrow> trees (snd kt) = [])"
    by blast
qed

theorem tree_ids_unique_and_counted_witness:
  "map tree_id (all_trees (fst (cut_tree 7 (None, None) 0 0 1
      (initialize_grid
         (\<lambda>x y. \<lparr>rand_type = 1 / 2, rand_trees = 1 / 2, num_trees = 2,
                  tree_draws = (\<lambda>j. (1 / 2, 1 / 4, ''oak''))\<rparr>)
         (None, None) (new_grid_manager 1))))) = [0, 1] \<and>
   trees_cut (gs_stats (get_grid_state (fst (cut_tree 7 (None, None) 0 0 1
      (initialize_grid
         (\<lambda>x y. \<lparr>rand_type = 1 / 2, rand_trees = 1 / 2, num_trees = 2,
                  tree_draws = (\<lambda>j. (1 / 2, 1 / 4, ''oak''))\<rparr>)
         (None, None) (new_grid_manager 1)))))) = 1"
proof -
  let ?D = "\<lambda>x y::int. \<lparr>rand_type = 1 / 2, rand_trees = 1 / 2, num_trees = 2,
                  tree_draws = (\<lambda>j::nat. (1 / 2 :: real, 1 / 4 :: real, ''oak''))\<rparr>"
  let ?init = "initialize_grid ?D (None, None) (new_grid_manager 1)"
  let ?after = "fst (cut_tree 7 (None, None) 0 0 1 ?init)"
  have init: "?init =
     \<lparr>grid_size = 1,
      grid = [((0, 0), \<lparr>tile_x = 0, tile_y = 0, tile_type = ''grass'', tile_image_url = None,
                 trees = [\<lparr>tree_id = 0, tree_pos = \<lparr>offset_x = 1 / 2, offset_y = 1 / 4\<rparr>,
                            cut = False, tree_type = ''oak''\<rparr>,
                          \<lparr>tree_id = 1, tree_pos = \<lparr>offset_x = 1 / 2, offset_y = 1 / 4\<rparr>,
                            cut = False, tree_type = ''oak''\<rparr>]\<rparr>)],
      grid_resources = \<lparr>wood = 0, stone = 0, food = 0\<rparr>, tree_id_counter = 2,
      oracle_position = None, environment_analysis = None\<rparr>"
    by (simp add: initialize_grid_def new_grid_manager_def init_cell_def random_tile_type_def
        generate_trees_for_tile_def get_next_tree_id_def analyze_environment_def
        numeral_2_eq_2)
  have ts: "all_trees ?after =
      [\<lparr>tree_id = 0, tree_pos = \<lparr>offset_x = 1 / 2, offset_y = 1 / 4\<rparr>, cut = False,
         tree_type = ''oak''\<rparr>,
       \<lparr>tree_id = 1, tree_pos = \<lparr>offset_x = 1 / 2, offset_y = 1 / 4\<rparr>, cut = True,
         tree_type = ''oak''\<rparr>]"
    unfolding init by (simp add: cut_tree_def analyze_environment_def all_trees_def)
  have r: "reachable ?after" by (intro reachable.cut reachable.init)
  from tree_ids_unique_and_counted[where g = "?after"] r
  have "trees_cut (gs_stats (get_grid_state ?after)) = int (length (filter cut (all_trees ?after)))"
    by blast
  then show ?thesis unfolding ts by simp
qed



section \<open>Applying the oracle's decisions\<close>


lemma modify_villager_absent:
  "find_villager n vs = None \<Longrightarrow> modify_villager n f vs = vs"
  unfolding find_villager_def by (induction vs) (auto split: if_splits)

lemma modify_villager_nth:
  "i < length vs \<Longrightarrow> Some (name (vs ! i)) = n \<Longrightarrow> \<forall>j<i. Some (name (vs ! j)) \<noteq> n \<Longrightarrow>
   modify_villager n f vs = vs[i := f (vs ! i)]"
proof (induction vs arbitrary: i)
  case Nil
  then show ?case by simp
next
  case (Cons v vs)
  show ?case
  proof (cases i)
    case 0
    with Cons.prems show ?thesis by simp
  next
    case (Suc k)
    with Cons.prems have "Some (name v) \<noteq> n" by auto
    moreover from Suc Cons.prems have "modify_villager n f vs = vs[k := f (vs ! k)]"
      by (intro Cons.IH) auto
    ultimately show ?thesis using Suc by simp
  qed
qed

lemma find_villager_nth:
  "i < length vs \<Longrightarrow> Some (name (vs ! i)) = n \<Longrightarrow> \<forall>j<i. Some (name (vs ! j)) \<noteq> n \<Longrightarrow>
   find_villager n vs = Some (vs ! i)"
proof (induction vs arbitrary: i)
  case Nil
  then show ?case by simp
next
  case (Cons v vs)
  show ?case
  proof (cases i)
    case 0
    with Cons.prems show ?thesis by (simp add: find_villager_def)
  next
    case (Suc k)
    with Cons.prems have "Some (name v) \<noteq> n" by auto
    moreover from Suc Cons.prems have "find_villager n vs = Some (vs ! k)"
      by (intro Cons.IH) auto
    ultimately show ?thesis using Suc by (simp add: find_villager_def)
  qed
qed

lemma modify_villager_pointwise:
  "i < length vs \<Longrightarrow> modify_villager n f vs ! i = vs ! i \<or>
     (Some (name (vs ! i)) = n \<and> modify_villager n f vs ! i = f (vs ! i))"
proof (induction vs arbitrary: i)
  case Nil
  then show ?case by simp
next
  case (Cons v vs)
  then show ?case by (cases i) auto
qed

lemma modify_villager_core:
  "\<forall>u\<in>set vs. Some (name u) = n \<longrightarrow> core (f u) = core u \<Longrightarrow>
   map core (modify_villager n f vs) = map core vs"
  by (induction vs) auto

lemma fst_apply_assignment:
  "fst (apply_assignment a (vs, msgs)) =
     modify_villager (a_name a) (\<lambda>u. assign_given_task a (change_job a u)) vs"
  by (auto simp: apply_assignment_def modify_villager_absent split: option.splits)

lemma fst_apply_build_action:
  "fst (apply_build_action ba (vs, msgs)) =
     modify_villager (assigned_to ba)
       (\<lambda>u. u\<lparr>assigned_task := Some (''build_'' @ format_opt (ba_building ba))\<rparr>) vs"
  by (auto simp: apply_build_action_def modify_villager_absent split: option.splits)

lemma fold_apply_assignment:
  "fst (fold apply_assignment as (vs, msgs)) =
     fold (\<lambda>a. modify_villager (a_name a) (\<lambda>u. assign_given_task a (change_job a u))) as vs"
proof (induction as arbitrary: vs msgs)
  case Nil
  then show ?case by simp
next
  case (Cons a as)
  obtain vs1 msgs1 where s: "apply_assignment a (vs, msgs) = (vs1, msgs1)"
    by (cases "apply_assignment a (vs, msgs)")
  with fst_apply_assignment[of a vs msgs]
  have "vs1 = modify_villager (a_name a) (\<lambda>u. assign_given_task a (change_job a u)) vs"
    by simp
  with s Cons.IH[of vs1 msgs1] show ?case by simp
qed

lemma fold_apply_build_action:
  "fst (fold apply_build_action bas (vs, msgs)) =
     fold (\<lambda>ba. modify_villager (assigned_to ba)
       (\<lambda>u. u\<lparr>assigned_task := Some (''build_'' @ format_opt (ba_building ba))\<rparr>)) bas vs"
proof (induction bas arbitrary: vs msgs)
  case Nil
  then show ?case by simp
next
  case (Cons ba bas)
  obtain vs1 msgs1 where s: "apply_build_action ba (vs, msgs) = (vs1, msgs1)"
    by (cases "apply_build_action ba (vs, msgs)")
  with fst_apply_build_action[of ba vs msgs]
  have "vs1 = modify_villager (assigned_to ba)
       (\<lambda>u. u\<lparr>assigned_task := Some (''build_'' @ format_opt (ba_building ba))\<rparr>) vs"
    by simp
  with s Cons.IH[of vs1 msgs1] show ?case by simp
qed

lemma villagers_apply_oracle_decisions:
  "villagers (fst (apply_oracle_decisions d s)) =
     fold (\<lambda>ba. modify_villager (assigned_to ba)
             (\<lambda>u. u\<lparr>assigned_task := Some (''build_'' @ format_opt (ba_building ba))\<rparr>))
       (case build_actions d of None \<Rightarrow> [] | Some bas \<Rightarrow> bas)
       (fold (\<lambda>a. modify_villager (a_name a) (\<lambda>u. assign_given_task a (change_job a u)))
          (case assignments d of None \<Rightarrow> [] | Some as \<Rightarrow> as) (villagers s))"
proof -
  let ?as = "case assignments d of None \<Rightarrow> [] | Some as \<Rightarrow> as"
  let ?bas = "case build_actions d of None \<Rightarrow> [] | Some bas \<Rightarrow> bas"
  obtain vs1 m1 where st1: "fold apply_assignment ?as (villagers s, []) = (vs1, m1)"
    by (cases "fold apply_assignment ?as (villagers s, [])")
  from fold_apply_assignment[of ?as "villagers s" "[]"] st1
  have vs1: "vs1 = fold (\<lambda>a. modify_villager (a_name a)
      (\<lambda>u. assign_given_task a (change_job a u))) ?as (villagers s)"
    by simp
  have "apply_oracle_decisions d s =
      (s\<lparr>villagers := fst (fold apply_build_action ?bas (vs1, m1))\<rparr>,
       snd (fold apply_build_action ?bas (vs1, m1)))"
    using st1 by (simp add: apply_oracle_decisions_def Let_def split: option.splits)
  then show ?thesis by (simp add: fold_apply_build_action vs1)
qed

lemma fold_modify_core:
  "(\<And>x u. core (h x u) = core u) \<Longrightarrow>
   map core (fold (\<lambda>x. modify_villager (key x) (h x)) xs vs) = map core vs"
proof (induction xs arbitrary: vs)
  case Nil
  then show ?case by simp
next
  case (Cons x xs)
  have "map core (modify_villager (key x) (h x) vs) = map core vs"
    by (rule modify_villager_core) (simp add: Cons.prems)
  with Cons.IH[OF Cons.prems] show ?case by simp
qed



lemma tier_changes_with_job:
  "job (assign_given_task a (change_job a v)) = job v \<Longrightarrow>
   job_tier (assign_given_task a (change_job a v)) = job_tier v"
  by (auto simp: assign_given_task_def change_job_def split: option.splits if_splits)

lemma same_job_core:
  "new_job a = Some (job v) \<Longrightarrow> core (assign_given_task a (change_job a v)) = core v"
  by (simp add: assign_given_task_def change_job_def core_def)

lemma fold_same_job_core:
  "\<forall>a\<in>set as. \<forall>c\<in>set (map core vs). a_name a = Some (fst c) \<longrightarrow> new_job a = Some (fst (snd c))
   \<Longrightarrow> map core (fold (\<lambda>a. modify_villager (a_name a)
          (\<lambda>u. assign_given_task a (change_job a u))) as vs) = map core vs"
proof (induction as arbitrary: vs)
  case Nil
  then show ?case by simp
next
  case (Cons a as)
  let ?vs1 = "modify_villager (a_name a) (\<lambda>u. assign_given_task a (change_job a u)) vs"
  have "\<forall>u\<in>set vs. Some (name u) = a_name a \<longrightarrow>
      core (assign_given_task a (change_job a u)) = core u"
  proof (intro ballI impI)
    fix u
    assume u: "u \<in> set vs" "Some (name u) = a_name a"
    then have "core u \<in> set (map core vs)" by simp
    moreover have "a_name a = Some (fst (core u))" using u(2) by (simp add: core_def)
    moreover have "a \<in> set (a # as)" by simp
    ultimately have "new_job a = Some (fst (snd (core u)))" using Cons.prems by blast
    then show "core (assign_given_task a (change_job a u)) = core u"
      by (intro same_job_core) (simp add: core_def)
  qed
  then have c1: "map core ?vs1 = map core vs" by (rule modify_villager_core)
  have "\<forall>a\<in>set as. \<forall>c\<in>set (map core ?vs1).
      a_name a = Some (fst c) \<longrightarrow> new_job a = Some (fst (snd c))"
    unfolding c1 using Cons.prems by simp
  then have "map core (fold (\<lambda>a. modify_villager (a_name a)
          (\<lambda>u. assign_given_task a (change_job a u))) as ?vs1) = map core ?vs1"
    by (rule Cons.IH)
  with c1 show ?case by simp
qed

text \<open>
  Claim C10. An assignment whose \<open>new_job\<close> is the current job of the villager it targets
  (the first villager of the roster with its name) leaves the villager as it is but for
  \<open>assigned_task\<close>, which becomes the assignment's task when one is given, and adds no
  message: the assignment's \<open>job_tier\<close> is not read. For any assignment, a villager whose
  job is the same after it has the same tier after it. When every assignment of the
  decisions names the current job of each villager that bears its name, the whole call
  leaves the name, job and tier of every villager unchanged.
\<close>

theorem same_job_assignment_keeps_tier:
  "(i < length vs \<and> a_name a = Some (name (vs ! i)) \<and>
    (\<forall>j<i. a_name a \<noteq> Some (name (vs ! j))) \<and> new_job a = Some (job (vs ! i))
      \<longrightarrow> apply_assignment a (vs, msgs) =
           (vs[i := (vs ! i)\<lparr>assigned_task :=
                       (if truthy (task a) then task a else assigned_task (vs ! i))\<rparr>], msgs)) \<and>
   (\<forall>k<length vs. job (fst (apply_assignment a (vs, msgs)) ! k) = job (vs ! k) \<longrightarrow>
        job_tier (fst (apply_assignment a (vs, msgs)) ! k) = job_tier (vs ! k)) \<and>
   (assignments d = Some as \<and>
    (\<forall>a'\<in>set as. \<forall>v\<in>set (villagers s). a_name a' = Some (name v) \<longrightarrow> new_job a' = Some (job v))
      \<longrightarrow> map core (villagers (fst (apply_oracle_decisions d s))) = map core (villagers s))"
proof -
  have one: "i < length vs \<and> a_name a = Some (name (vs ! i)) \<and>
    (\<forall>j<i. a_name a \<noteq> Some (name (vs ! j))) \<and> new_job a = Some (job (vs ! i))
      \<longrightarrow> apply_assignment a (vs, msgs) =
           (vs[i := (vs ! i)\<lparr>assigned_task :=
                       (if truthy (task a) then task a else assigned_task (vs ! i))\<rparr>], msgs)"
  proof
    assume h: "i < length vs \<and> a_name a = Some (name (vs ! i)) \<and>
      (\<forall>j<i. a_name a \<noteq> Some (name (vs ! j))) \<and> new_job a = Some (job (vs ! i))"
    then have i: "i < length vs" and n: "Some (name (vs ! i)) = a_name a"
      and first: "\<forall>j<i. Some (name (vs ! j)) \<noteq> a_name a"
      and nj: "new_job a = Some (job (vs ! i))"
      by auto
    have f: "find_villager (a_name a) vs = Some (vs ! i)"
      using i n first by (rule find_villager_nth)
    have m: "modify_villager (a_name a) (\<lambda>u. assign_given_task a (change_job a u)) vs
        = vs[i := assign_given_task a (change_job a (vs ! i))]"
      using i n first by (rule modify_villager_nth)
    have "assign_given_task a (change_job a (vs ! i)) =
        (vs ! i)\<lparr>assigned_task := (if truthy (task a) then task a else assigned_task (vs ! i))\<rparr>"
      using nj by (simp add: assign_given_task_def change_job_def)
    with f m nj show "apply_assignment a (vs, msgs) =
           (vs[i := (vs ! i)\<lparr>assigned_task :=
                       (if truthy (task a) then task a else assigned_task (vs ! i))\<rparr>], msgs)"
      by (simp add: apply_assignment_def)
  qed
  have tier: "\<forall>k<length vs. job (fst (apply_assignment a (vs, msgs)) ! k) = job (vs ! k) \<longrightarrow>
        job_tier (fst (apply_assignment a (vs, msgs)) ! k) = job_tier (vs ! k)"
  proof (intro allI impI)
    fix k
    assume k: "k < length vs"
      and j: "job (fst (apply_assignment a (vs, msgs)) ! k) = job (vs ! k)"
    let ?f = "\<lambda>u. assign_given_task a (change_job a u)"
    from modify_villager_pointwise[OF k, of "a_name a" ?f]
    show "job_tier (fst (apply_assignment a (vs, msgs)) ! k) = job_tier (vs ! k)"
    proof
      assume "modify_villager (a_name a) ?f vs ! k = vs ! k"
      then show ?thesis by (simp add: fst_apply_assignment)
    next
      assume "Some (name (vs ! k)) = a_name a \<and> modify_villager (a_name a) ?f vs ! k = ?f (vs ! k)"
      then have e: "fst (apply_assignment a (vs, msgs)) ! k = ?f (vs ! k)"
        by (simp add: fst_apply_assignment)
      with j have "job (?f (vs ! k)) = job (vs ! k)" by simp
      then have "job_tier (?f (vs ! k)) = job_tier (vs ! k)" by (rule tier_changes_with_job)
      with e show ?thesis by simp
    qed
  qed
  have whole: "assignments d = Some as \<and>
    (\<forall>a'\<in>set as. \<forall>v\<in>set (villagers s). a_name a' = Some (name v) \<longrightarrow> new_job a' = Some (job v))
      \<longrightarrow> map core (villagers (fst (apply_oracle_decisions d s))) = map core (villagers s)"
  proof
    assume h: "assignments d = Some as \<and>
      (\<forall>a'\<in>set as. \<forall>v\<in>set (villagers s). a_name a' = Some (name v) \<longrightarrow> new_job a' = Some (job v))"
    then have "\<forall>a'\<in>set as. \<forall>c\<in>set (map core (villagers s)).
        a_name a' = Some (fst c) \<longrightarrow> new_job a' = Some (fst (snd c))"
      by (auto simp: core_def)
    then have e1: "map core (fold (\<lambda>a. modify_villager (a_name a)
          (\<lambda>u. assign_given_task a (change_job a u))) as (villagers s)) = map core (villagers s)"
      by (rule fold_same_job_core)
    have e2: "map core (villagers (fst (apply_oracle_decisions d s))) =
        map core (fold (\<lambda>a. modify_villager (a_name a)
          (\<lambda>u. assign_given_task a (change_job a u)))
          (case assignments d of None \<Rightarrow> [] | Some as \<Rightarrow> as) (villagers s))"
      unfolding villagers_apply_oracle_decisions
      by (rule fold_modify_core) (simp add: core_def)
    from h have "(case assignments d of None \<Rightarrow> [] | Some as \<Rightarrow> as) = as" by simp
    with e1 e2 show "map core (villagers (fst (apply_oracle_decisions d s))) = map core (villagers s)"
      by simp
  qed
  from one tier whole show ?thesis by (intro conjI)
qed

theorem same_job_assignment_keeps_tier_witness:
  "apply_assignment
     \<lparr>a_name = Some ''Alice'', new_job = Some ''woodcutter'', a_job_tier = Some 3,
      task = Some ''chop_wood''\<rparr>
     ([\<lparr>name = ''Bob'', job = ''miner'', job_tier = Some 1, stamina = 1, experience = 0,
        assigned_task = None\<rparr>,
       \<lparr>name = ''Alice'', job = ''woodcutter'', job_tier = Some 1, stamina = 1, experience = 0,
        assigned_task = None\<rparr>], [])
   = ([\<lparr>name = ''Bob'', job = ''miner'', job_tier = Some 1, stamina = 1, experience = 0,
        assigned_task = None\<rparr>,
       \<lparr>name = ''Alice'', job = ''woodcutter'', job_tier = Some 1, stamina = 1, experience = 0,
        assigned_task = Some ''chop_wood''\<rparr>], [])"
proof -
  let ?a = "\<lparr>a_name = Some ''Alice'', new_job = Some ''woodcutter'', a_job_tier = Some 3,
      task = Some ''chop_wood''\<rparr>"
  let ?vs = "[\<lparr>name = ''Bob'', job = ''miner'', job_tier = Some 1, stamina = 1::real,
        experience = 0, assigned_task = None\<rparr>,
       \<lparr>name = ''Alice'', job = ''woodcutter'', job_tier = Some 1, stamina = 1, experience = 0,
        assigned_task = None\<rparr>]"
  have h: "1 < length ?vs \<and> a_name ?a = Some (name (?vs ! 1)) \<and>
    (\<forall>j<1. a_name ?a \<noteq> Some (name (?vs ! j))) \<and> new_job ?a = Some (job (?vs ! 1))"
    by simp
  from conjunct1[OF same_job_assignment_keeps_tier
        [where i = 1 and vs = ?vs and a = ?a and msgs = "[]"], rule_format, OF h]
  show ?thesis by (simp add: truthy_def)
qed

section \<open>Tiers under the rule-based oracle\<close>









section \<open>A day of the village\<close>




lemma run_tasks_idle:
  "\<not> truthy (assigned_task v) \<Longrightarrow>
   run_tasks variance i (v # todo) (pre, r, b, msgs) =
     run_tasks variance (Suc i) todo (pre @ [v], r, b, msgs @ [Idle (name v)])"
  by (simp add: truthy_def split: option.splits)

lemma run_tasks_acts:
  "assigned_task v = Some t \<Longrightarrow> t \<noteq> [] \<Longrightarrow>
   execute_action (variance i) t v r b = Inr (v', r', b', m) \<Longrightarrow>
   run_tasks variance i (v # todo) (pre, r, b, msgs) =
     run_tasks variance (Suc i) todo (pre @ [v'], r ++ r', b ++ b', msgs @ [m])"
  by simp

lemma run_tasks_raises:
  "assigned_task v = Some t \<Longrightarrow> t \<noteq> [] \<Longrightarrow> execute_action (variance i) t v r b = Inl e \<Longrightarrow>
   run_tasks variance i (v # todo) (pre, r, b, msgs) = ((pre @ v # todo, r, b, msgs), Some e)"
  by simp

text \<open>
  The loop does not read what it has accumulated: the villagers already processed and the
  messages only grow at the end.
\<close>

lemma run_tasks_acc:
  "run_tasks variance i todo (pre, r, b, msgs) =
     (case run_tasks (\<lambda>k. variance (i + k)) 0 todo ([], r, b, []) of
        ((vs', r', b', msgs'), e) \<Rightarrow> ((pre @ vs', r', b', msgs @ msgs'), e))"
proof (induction todo arbitrary: variance i pre r b msgs)
  case Nil
  show ?case by simp
next
  case (Cons v todo)
  have shift: "(\<lambda>k. variance (i + (Suc 0 + k))) = (\<lambda>k. variance (Suc i + k))"
    by simp
  have continue: "run_tasks variance i (v # todo) (pre, r, b, msgs) =
     (case run_tasks (\<lambda>k. variance (i + k)) 0 (v # todo) ([], r, b, []) of
        ((vs', r', b', msgs'), e) \<Rightarrow> ((pre @ vs', r', b', msgs @ msgs'), e))"
    if l: "run_tasks variance i (v # todo) (pre, r, b, msgs) =
             run_tasks variance (Suc i) todo (pre @ [x], r2, b2, msgs @ [mm])"
      and s: "run_tasks (\<lambda>k. variance (i + k)) 0 (v # todo) ([], r, b, []) =
             run_tasks (\<lambda>k. variance (i + k)) (Suc 0) todo ([x], r2, b2, [mm])"
    for x r2 b2 mm
  proof -
    obtain vs' r' b' msgs' e where
      t: "run_tasks (\<lambda>k. variance (Suc i + k)) 0 todo ([], r2, b2, []) = ((vs', r', b', msgs'), e)"
      by (metis surj_pair)
    from Cons.IH[of variance "Suc i" "pre @ [x]" r2 b2 "msgs @ [mm]"] t
    have "run_tasks variance (Suc i) todo (pre @ [x], r2, b2, msgs @ [mm]) =
        ((pre @ x # vs', r', b', msgs @ mm # msgs'), e)"
      by simp
    moreover from Cons.IH[of "\<lambda>k. variance (i + k)" "Suc 0" "[x]" r2 b2 "[mm]"] t
    have "run_tasks (\<lambda>k. variance (i + k)) (Suc 0) todo ([x], r2, b2, [mm]) =
        ((x # vs', r', b', mm # msgs'), e)"
      by (simp add: shift)
    ultimately show ?thesis using l s by simp
  qed
  show ?case
  proof (cases "truthy (assigned_task v)")
    case False
    show ?thesis
      by (rule continue) (simp_all only: run_tasks_idle[OF False] append_Nil)
  next
    case True
    then obtain t where t: "assigned_task v = Some t" "t \<noteq> []"
      by (auto simp: truthy_def split: option.splits)
    show ?thesis
    proof (cases "execute_action (variance i) t v r b")
      case (Inl e)
      with t show ?thesis by simp
    next
      case (Inr res)
      then obtain v' r' b' m where
        res: "execute_action (variance i) t v r b = Inr (v', r', b', m)"
        by (cases res) auto
      show ?thesis
      proof (rule continue)
        show "run_tasks variance i (v # todo) (pre, r, b, msgs) =
             run_tasks variance (Suc i) todo (pre @ [v'], r ++ r', b ++ b', msgs @ [m])"
          using t res by (rule run_tasks_acts)
        show "run_tasks (\<lambda>k. variance (i + k)) 0 (v # todo) ([], r, b, []) =
             run_tasks (\<lambda>k. variance (i + k)) (Suc 0) todo ([v'], r ++ r', b ++ b', [m])"
          using t res by simp
      qed
    qed
  qed
qed

lemma fst_execute_day:
  "fst (execute_day variance s) =
     (case run_tasks variance 0 (villagers s) ([], resources s, buildings s, []) of
        ((vs, r, b, msgs), e) \<Rightarrow>
          s\<lparr>villagers := vs, resources := r, buildings := b,
            day := (if e = None then day s + 1 else day s)\<rparr>)"
proof -
  obtain vs r b msgs e where
    t: "run_tasks variance 0 (villagers s) ([], resources s, buildings s, []) = ((vs, r, b, msgs), e)"
    by (metis surj_pair)
  from run_tasks_acc[of variance 0 "villagers s" "[]" "resources s" "buildings s"
      "[Rule, DayHeader (day s), Rule]"] t
  have "run_tasks variance 0 (villagers s)
      ([], resources s, buildings s, [Rule, DayHeader (day s), Rule]) =
      ((vs, r, b, [Rule, DayHeader (day s), Rule] @ msgs), e)"
    by simp
  with t show ?thesis by (cases e) (simp_all add: execute_day_def)
qed

lemma execute_action_keeps:
  assumes "execute_action vr action v r b = Inr (v', r', b', m)"
  shows "core v' = core v \<and> assigned_task v' = assigned_task v"
proof (cases "map_of ACTIONS action")
  case None
  with assms show ?thesis by (simp add: execute_action_def)
next
  case (Some d)
  have rest: "core v' = core v \<and> assigned_task v' = assigned_task v"
    if "execute_rest v r b d = Inr (v', r', b', m)"
    using that
    by (auto simp: execute_rest_def bind_err_def index_def Let_def core_def split: option.splits)
  have gather: "core v' = core v \<and> assigned_task v' = assigned_task v"
    if g: "execute_resource_gathering vr action v r b d = Inr (v', r', b', m)"
  proof (cases "case requires_resources d of None \<Rightarrow> None | Some reqs \<Rightarrow> first_short r reqs")
    case (Some short)
    with g show ?thesis by (cases short) (simp add: execute_resource_gathering_def)
  next
    case None
    with g show ?thesis
      by (auto simp: execute_resource_gathering_def bind_err_def index_def Let_def core_def
          split: option.splits sum.splits)
  qed
  have build: "core v' = core v \<and> assigned_task v' = assigned_task v"
    if g: "execute_building action v r b d = Inr (v', r', b', m)"
  proof (cases "resource_cost d")
    case None
    with g show ?thesis by (simp add: execute_building_def bind_err_def index_def)
  next
    case (Some cost)
    show ?thesis
    proof (cases "first_short r cost")
      case (Some short)
      with g \<open>resource_cost d = Some cost\<close> show ?thesis
        by (cases short) (simp add: execute_building_def bind_err_def index_def)
    next
      case None
      with g \<open>resource_cost d = Some cost\<close> show ?thesis
        by (auto simp: execute_building_def bind_err_def index_def Let_def core_def
            split: option.splits sum.splits)
    qed
  qed
  from assms Some rest gather build show ?thesis
    by (auto simp: execute_action_def split: if_splits)
qed

lemma run_tasks_core:
  "map core (fst (fst (run_tasks variance i todo (pre, r, b, msgs)))) = map core (pre @ todo)"
proof (induction todo arbitrary: i pre r b msgs)
  case Nil
  show ?case by simp
next
  case (Cons v todo)
  show ?case
  proof (cases "truthy (assigned_task v)")
    case False
    from Cons.IH[of "Suc i" "pre @ [v]" r b "msgs @ [Idle (name v)]"]
    show ?thesis by (simp only: run_tasks_idle[OF False]) simp
  next
    case True
    then obtain t where t: "assigned_task v = Some t" "t \<noteq> []"
      by (auto simp: truthy_def split: option.splits)
    show ?thesis
    proof (cases "execute_action (variance i) t v r b")
      case (Inl e)
      with t show ?thesis by simp
    next
      case (Inr res)
      then obtain v' r' b' m where
        res: "execute_action (variance i) t v r b = Inr (v', r', b', m)"
        by (cases res) auto
      from execute_action_keeps[OF res] have "core v' = core v" by simp
      with Cons.IH[of "Suc i" "pre @ [v']" "r ++ r'" "b ++ b'" "msgs @ [m]"]
      show ?thesis
        by (simp only: run_tasks_acts[where variance = variance and i = i, OF t res]) simp
    qed
  qed
qed

text \<open>A day leaves the name, job and tier of every villager as they are.\<close>

lemma execute_day_core:
  "map core (villagers (fst (execute_day variance s))) = map core (villagers s)"
proof -
  obtain vs r b msgs e where
    t: "run_tasks variance 0 (villagers s) ([], resources s, buildings s, []) = ((vs, r, b, msgs), e)"
    by (metis surj_pair)
  from run_tasks_core[of variance 0 "villagers s" "[]" "resources s" "buildings s" "[]"] t
  have "map core vs = map core (villagers s)" by simp
  with t show ?thesis by (simp add: fst_execute_day)
qed






end
